theory Spec2Isabelle
  imports Main "HOL-Library.Sublist"
begin

section \<open>Python values, exceptions and dictionaries\<close>

text \<open>
  The record handled by \<^verbatim>\<open>main.py\<close> is a Python dictionary whose values are, depending on
  the stage, a string (as the API returns it), a boolean (a converted checkbox), or a
  dictionary from raw choice values to values (a radio group). Strings are lists of
  characters, one \<open>char\<close> per code point (the Latin-1 range).
\<close>

datatype pyval = VStr string | VBool bool | VDict "(string \<times> pyval) list"

text \<open>
  The exceptions the modelled code raises. \<open>LookupError\<close> carries its message;
  \<open>SystemExit\<close> is what the built-in \<^verbatim>\<open>exit(n)\<close> raises to end the process.
\<close>

datatype exn =
    TypeError
  | ValueError
  | KeyError
  | AttributeError
  | LookupError string
  | FileNotFoundError
  | FileExistsError
  | SystemExit nat

text \<open>Python's class hierarchy, as far as the modelled exceptions go: \<open>KeyError\<close> is a
  subclass of \<open>LookupError\<close>; the two file errors are subclasses of \<open>OSError\<close>.\<close>

fun is_LookupError :: "exn \<Rightarrow> bool" where
  "is_LookupError (LookupError m) = True"
| "is_LookupError KeyError = True"
| "is_LookupError e = False"

fun is_ValueError :: "exn \<Rightarrow> bool" where
  "is_ValueError ValueError = True"
| "is_ValueError e = False"

fun is_OSError :: "exn \<Rightarrow> bool" where
  "is_OSError FileNotFoundError = True"
| "is_OSError FileExistsError = True"
| "is_OSError e = False"

fun is_SystemExit :: "exn \<Rightarrow> bool" where
  "is_SystemExit (SystemExit n) = True"
| "is_SystemExit e = False"

text \<open>
  A dictionary is an association list in insertion order with pairwise distinct keys;
  \<open>map_of d k\<close> is the lookup \<^verbatim>\<open>d[k]\<close> (\<open>None\<close> where Python raises \<open>KeyError\<close>) and
  \<open>dict_set d k v\<close> is the assignment \<^verbatim>\<open>d[k] = v\<close>: an existing key keeps its place, a
  new key goes to the end.
\<close>

type_synonym 'v dict = "(string \<times> 'v) list"

fun dict_set :: "'v dict \<Rightarrow> string \<Rightarrow> 'v \<Rightarrow> 'v dict" where
  "dict_set [] k v = [(k, v)]"
| "dict_set ((k', v') # kvs) k v =
     (if k' = k then (k, v) # kvs else (k', v') # dict_set kvs k v)"

text \<open>\<^verbatim>\<open>d.update(other)\<close>: assigns the entries of \<open>other\<close> in their order.\<close>

fun dict_update :: "'v dict \<Rightarrow> 'v dict \<Rightarrow> 'v dict" where
  "dict_update d [] = d"
| "dict_update d ((k, v) # other) = dict_update (dict_set d k v) other"

text \<open>Truthiness (\<^verbatim>\<open>if x:\<close>) and \<^verbatim>\<open>isinstance(x, bool)\<close>.\<close>

fun truthy :: "pyval \<Rightarrow> bool" where
  "truthy (VStr s) = (s \<noteq> [])"
| "truthy (VBool b) = b"
| "truthy (VDict d) = (d \<noteq> [])"

fun is_bool :: "pyval \<Rightarrow> bool" where
  "is_bool (VBool b) = True"
| "is_bool v = False"

text \<open>A \<^verbatim>\<open>for\<close> loop whose body may raise: the first exception ends the loop.\<close>

fun for_each :: "('s \<Rightarrow> 'a \<Rightarrow> exn + 's) \<Rightarrow> 'a list \<Rightarrow> 's \<Rightarrow> exn + 's" where
  "for_each body [] s = Inr s"
| "for_each body (x # xs) s =
     (case body s x of Inl e \<Rightarrow> Inl e | Inr s' \<Rightarrow> for_each body xs s')"

section \<open>String operations\<close>

text \<open>
  \<^verbatim>\<open>s.split(sep)\<close> for a non-empty separator: the pieces between the non-overlapping
  occurrences of \<open>sep\<close>, found from the left. (Python raises on an empty separator; the
  code only passes the constants \<^verbatim>\<open>'___'\<close>, \<^verbatim>\<open>' | '\<close>, \<^verbatim>\<open>'|'\<close> and \<^verbatim>\<open>', '\<close>.)
\<close>

fun split :: "string \<Rightarrow> string \<Rightarrow> string list" where
  "split [] sep = [[]]"
| "split (c # cs) sep =
     (if sep \<noteq> [] \<and> prefix sep (c # cs) then [] # split (drop (length sep - 1) cs) sep
      else (c # hd (split cs sep)) # tl (split cs sep))"

text \<open>\<^verbatim>\<open>sep.join(xs)\<close>.\<close>

fun join :: "string \<Rightarrow> string list \<Rightarrow> string" where
  "join sep [] = []"
| "join sep [x] = x"
| "join sep (x # y # ys) = x @ sep @ join sep (y # ys)"

text \<open>\<^verbatim>\<open>s.strip()\<close>: removes leading and trailing whitespace (the code points below 256
  for which \<^verbatim>\<open>str.isspace\<close> holds).\<close>

definition is_space :: "char \<Rightarrow> bool" where
  "is_space c = (of_char c \<in> {9, 10, 11, 12, 13, 28, 29, 30, 31, 32, 133, 160 :: nat})"

definition strip :: "string \<Rightarrow> string" where
  "strip s = rev (dropWhile is_space (rev (dropWhile is_space s)))"

text \<open>\<^verbatim>\<open>s[1:-1]\<close>: the string without its first and last character (empty for a string of
  fewer than two characters).\<close>

definition slice_1_m1 :: "string \<Rightarrow> string" where
  "slice_1_m1 s = butlast (tl s)"

section \<open>Metadata (redcap\_helpers.py)\<close>

text \<open>
  One entry of the project metadata. \<open>field_name\<close> and \<open>field_type\<close> are always present in
  what the API returns; \<open>select_choices_or_calculations\<close> is \<open>None\<close> when the key is absent.
\<close>

record field_md =
  field_name :: string
  field_type :: string
  select_choices_or_calculations :: "string option"

fun extract_field :: "field_md list \<Rightarrow> string \<Rightarrow> string list" where
  "extract_field [] which_field = []"
| "extract_field (field # md) which_field =
     (if field_type field = which_field then field_name field # extract_field md which_field
      else extract_field md which_field)"

definition get_radio_buttons_checkboxes :: "field_md list \<Rightarrow> string list \<times> string list" where
  "get_radio_buttons_checkboxes md = (extract_field md ''radio'', extract_field md ''checkbox'')"

text \<open>
  The choice-encoding string of a field is split on \<^verbatim>\<open>' | '\<close>, and on the bare \<^verbatim>\<open>'|'\<close> when
  that gives a single piece.
\<close>

definition choices_of :: "string \<Rightarrow> string list" where
  "choices_of s =
     (let choices = split s '' | '' in
      if length choices = 1 then split s ''|'' else choices)"

text \<open>The loop over the choices: \<^verbatim>\<open>option_fragments[0]\<close> exists, since \<open>split\<close> never returns
  the empty list.\<close>

fun sub_dict_loop :: "string dict \<Rightarrow> string list \<Rightarrow> string dict" where
  "sub_dict_loop sub_dict [] = sub_dict"
| "sub_dict_loop sub_dict (option # choices) =
     (let option_fragments = split (strip option) '', '' in
      sub_dict_loop
        (dict_set sub_dict (hd option_fragments) (join '', '' (tl option_fragments)))
        choices)"

fun multiple_choice_text_loop :: "(string dict) dict \<Rightarrow> field_md list \<Rightarrow> (string dict) dict" where
  "multiple_choice_text_loop texts [] = texts"
| "multiple_choice_text_loop texts (field # md) =
     (case select_choices_or_calculations field of
        None \<Rightarrow> multiple_choice_text_loop texts md
      | Some s \<Rightarrow>
          if s \<noteq> [] then
            multiple_choice_text_loop
              (dict_set texts (field_name field) (sub_dict_loop [] (choices_of s))) md
          else multiple_choice_text_loop texts md)"

definition get_multiple_choice_text :: "field_md list \<Rightarrow> (string dict) dict" where
  "get_multiple_choice_text md = multiple_choice_text_loop [] md"

section \<open>Record normalisation (main.py)\<close>

type_synonym py_record = "pyval dict"

subsection \<open>Checkbox and radio-button conversion\<close>

definition RADIO_BUTTON_CHOICE_SUFFIX :: string where
  "RADIO_BUTTON_CHOICE_SUFFIX = ''__rchoice''"

text \<open>
  The raw record maps field names to strings. The loop visits every key once, reads the
  value stored under it and assigns only to that key, so it is modelled as a pass over
  the items of the raw record that updates the working record \<open>r\<close> and the dictionary
  \<open>new_dict_of_radio_values\<close> of staged entries.
\<close>

fun convert_items ::
  "string list \<Rightarrow> string list \<Rightarrow> string dict \<Rightarrow> py_record \<times> py_record \<Rightarrow> py_record \<times> py_record"
where
  "convert_items radio_buttons checkboxes [] (r, new_dict_of_radio_values) =
     (r, new_dict_of_radio_values)"
| "convert_items radio_buttons checkboxes ((redcap_variable, redcap_value) # items)
       (r, new_dict_of_radio_values) =
     (let checkbox_token_check = split redcap_variable ''___'' in
      if length checkbox_token_check > 1 \<and> hd checkbox_token_check \<in> set checkboxes then
        convert_items radio_buttons checkboxes items
          (dict_set r redcap_variable (VBool (redcap_value = ''1'')), new_dict_of_radio_values)
      else if redcap_variable \<in> set radio_buttons then
        convert_items radio_buttons checkboxes items
          (dict_set r redcap_variable (VDict [(redcap_value, VBool True)]),
           if redcap_value \<noteq> [] then
             dict_set new_dict_of_radio_values
               (redcap_variable @ RADIO_BUTTON_CHOICE_SUFFIX) (VStr redcap_value)
           else new_dict_of_radio_values)
      else convert_items radio_buttons checkboxes items (r, new_dict_of_radio_values))"

definition convert_checkboxes_and_radio_buttons :: "string dict \<Rightarrow> field_md list \<Rightarrow> py_record" where
  "convert_checkboxes_and_radio_buttons r md =
     (case get_radio_buttons_checkboxes md of
        (radio_buttons, checkboxes) \<Rightarrow>
          (case convert_items radio_buttons checkboxes r (map (\<lambda>(k, v). (k, VStr v)) r, []) of
             (r', new_dict_of_radio_values) \<Rightarrow> dict_update r' new_dict_of_radio_values))"

subsection \<open>Dropdown conversion\<close>

text \<open>
  The body of the loop over the metadata. In
  \<^verbatim>\<open>proj_multi_choice_text[dropdown_var_name][r[dropdown_var_name]]\<close> the outer lookup comes
  first; the inner one raises \<open>TypeError\<close> for a dictionary (unhashable) and \<open>KeyError\<close> for
  a boolean or an unknown string, the keys of the choice map being strings.
\<close>

definition convert_dropdown :: "(string dict) dict \<Rightarrow> py_record \<Rightarrow> field_md \<Rightarrow> exn + py_record" where
  "convert_dropdown proj_multi_choice_text r field =
     (if field_type field = ''dropdown'' then
        (let dropdown_var_name = field_name field in
         case map_of r dropdown_var_name of
           None \<Rightarrow> Inl KeyError
         | Some v \<Rightarrow>
             if v \<noteq> VStr [] then
               (case map_of proj_multi_choice_text dropdown_var_name of
                  None \<Rightarrow> Inl KeyError
                | Some sub_dict \<Rightarrow>
                    (case v of
                       VDict d \<Rightarrow> Inl TypeError
                     | VBool b \<Rightarrow> Inl KeyError
                     | VStr s \<Rightarrow>
                         (case map_of sub_dict s of
                            None \<Rightarrow> Inl KeyError
                          | Some t \<Rightarrow> Inr (dict_set r dropdown_var_name (VStr t)))))
             else Inr r)
      else Inr r)"

definition convert_dropdowns_to_strings :: "py_record \<Rightarrow> field_md list \<Rightarrow> exn + py_record" where
  "convert_dropdowns_to_strings r md =
     for_each (convert_dropdown (get_multiple_choice_text md)) md r"

subsection \<open>Radio-group collapse\<close>

text \<open>\<^verbatim>\<open>any(i)\<close> on an iterator: consumes it up to and including the first truthy element
  and returns whether there was one, here together with the rest of the iterator.\<close>

fun any_iter :: "pyval list \<Rightarrow> bool \<times> pyval list" where
  "any_iter [] = (False, [])"
| "any_iter (x # xs) = (if truthy x then (True, xs) else any_iter xs)"

definition contains_only_one_true :: "pyval list \<Rightarrow> bool" where
  "contains_only_one_true iterable =
     (case any_iter iterable of (b, i) \<Rightarrow> b \<and> \<not> fst (any_iter i))"

text \<open>The body of the loop over the radio groups. \<^verbatim>\<open>r[radio_group]\<close> raises \<open>KeyError\<close> when
  the record has no such key, and \<^verbatim>\<open>.values()\<close> raises \<open>AttributeError\<close> on a string or a
  boolean.\<close>

definition collapse_radio_group :: "py_record \<Rightarrow> string \<Rightarrow> exn + py_record" where
  "collapse_radio_group r radio_group =
     (case map_of r radio_group of
        None \<Rightarrow> Inl KeyError
      | Some (VStr s) \<Rightarrow> Inl AttributeError
      | Some (VBool b) \<Rightarrow> Inl AttributeError
      | Some (VDict d) \<Rightarrow>
          (let vals = map snd d in
           if list_ex (\<lambda>x. \<not> is_bool x) vals then Inl TypeError
           else if \<not> contains_only_one_true vals then Inl ValueError
           else if length d > 1 then
             (case find (\<lambda>(k, v). truthy v) d of
                Some (k, v) \<Rightarrow> Inr (dict_set r radio_group (VDict [(k, v)]))
              | None \<Rightarrow> Inr r)
           else Inr r))"

definition radio_groups :: "field_md list \<Rightarrow> string list" where
  "radio_groups md = map field_name (filter (\<lambda>field. field_type field = ''radio'') md)"

definition collapse_radio_groups :: "py_record \<Rightarrow> field_md list \<Rightarrow> exn + py_record" where
  "collapse_radio_groups r md = for_each collapse_radio_group (radio_groups md) r"

subsection \<open>The pipeline\<close>

definition prepare_for_fill :: "string dict \<Rightarrow> field_md list \<Rightarrow> exn + py_record" where
  "prepare_for_fill record md =
     (let r = convert_checkboxes_and_radio_buttons record md in
      case convert_dropdowns_to_strings r md of
        Inl e \<Rightarrow> Inl e
      | Inr r' \<Rightarrow> collapse_radio_groups r' md)"

section \<open>The PDF annotation tree (main.py)\<close>

text \<open>
  The template is a graph of dictionaries: several widgets may refer to one parent, and
  filling mutates widgets and parents in place. The objects therefore live in a store
  indexed by addresses; a page is the list of addresses under its \<^verbatim>\<open>/Annots\<close> key, or
  \<open>None\<close> when the page has no such key. Reading a missing key of a PDF dictionary gives
  \<^verbatim>\<open>None\<close>, as the tests \<^verbatim>\<open>annotations is None\<close> and \<^verbatim>\<open>if annotation[ANNOT_FIELD_KEY]\<close> of the
  source rely on; the fields of \<open>pdf_dict\<close> are named after the source's key constants.
  A name object is the string of its name with the leading slash, a field name is the
  raw string token with its delimiters (hence the \<^verbatim>\<open>[1:-1]\<close> of the source), and an
  appearance entry is either a dictionary, of which only the keys of its \<^verbatim>\<open>/D\<close> entry
  matter (\<open>None\<close> when it has no \<^verbatim>\<open>/D\<close>), or a plain string once a text field was filled.
\<close>

datatype pdf_obj = NameObj string | PyObj pyval

datatype ap_obj = ApDict "string list option" | ApStr string

record pdf_dict =
  SUBTYPE_KEY :: "string option"
  ANNOT_FIELD_KEY :: "string option"
  ANNOT_VAL_KEY :: "pdf_obj option"
  AS_KEY :: "pdf_obj option"
  APPEARANCE_KEY :: "ap_obj option"
  PARENT_KEY :: "nat option"

text \<open>The dictionary without entries, \<^verbatim>\<open>PdfDict()\<close>.\<close>

definition PdfDict :: pdf_dict where
  "PdfDict = \<lparr>SUBTYPE_KEY = None, ANNOT_FIELD_KEY = None, ANNOT_VAL_KEY = None,
     AS_KEY = None, APPEARANCE_KEY = None, PARENT_KEY = None\<rparr>"

type_synonym heap = "nat \<Rightarrow> pdf_dict"

type_synonym pdf_pages = "nat list option list"

definition WIDGET_SUBTYPE_KEY :: string where
  "WIDGET_SUBTYPE_KEY = ''/Widget''"

definition PdfName :: "string \<Rightarrow> string" where
  "PdfName name = CHR ''/'' # name"

text \<open>The value of \<^verbatim>\<open>d[ANNOT_FIELD_KEY]\<close> when it is truthy: present and not the empty
  string.\<close>

definition field_key :: "pdf_dict \<Rightarrow> string option" where
  "field_key d =
     (case ANNOT_FIELD_KEY d of None \<Rightarrow> None | Some t \<Rightarrow> if t = [] then None else Some t)"

subsection \<open>Field discovery\<close>

text \<open>The two branches of \<^verbatim>\<open>get_pdf_fields\<close> treat the name they found alike: cut it at the
  checkbox separator, and append it unless it is already listed.\<close>

definition cut_at_separator :: "string \<Rightarrow> string" where
  "cut_at_separator key = (if sublist ''___'' key then hd (split key ''___'') else key)"

definition append_new :: "string list \<Rightarrow> string \<Rightarrow> string list" where
  "append_new result key = (if key \<in> set result then result else result @ [key])"

text \<open>The body of the inner loop. \<^verbatim>\<open>annotation[PARENT_KEY][ANNOT_FIELD_KEY]\<close> subscripts
  \<^verbatim>\<open>None\<close> when the widget has no parent, which raises \<open>TypeError\<close>.\<close>

definition get_pdf_fields_annotation :: "heap \<Rightarrow> string list \<Rightarrow> nat \<Rightarrow> exn + string list" where
  "get_pdf_fields_annotation h result a =
     (let annotation = h a in
      if SUBTYPE_KEY annotation = Some WIDGET_SUBTYPE_KEY then
        (case field_key annotation of
           Some t \<Rightarrow> Inr (append_new result (cut_at_separator (slice_1_m1 t)))
         | None \<Rightarrow>
             (case PARENT_KEY annotation of
                None \<Rightarrow> Inl TypeError
              | Some p \<Rightarrow>
                  (case field_key (h p) of
                     Some t \<Rightarrow> Inr (append_new result (cut_at_separator (slice_1_m1 t)))
                   | None \<Rightarrow> Inr result)))
      else Inr result)"

definition get_pdf_fields_page :: "heap \<Rightarrow> string list \<Rightarrow> nat list option \<Rightarrow> exn + string list" where
  "get_pdf_fields_page h result annotations =
     (case annotations of
        None \<Rightarrow> Inr result
      | Some annots \<Rightarrow> for_each (get_pdf_fields_annotation h) annots result)"

definition get_pdf_fields :: "heap \<Rightarrow> pdf_pages \<Rightarrow> exn + string list" where
  "get_pdf_fields h pages = for_each (get_pdf_fields_page h) pages []"

subsection \<open>Filling\<close>

text \<open>\<^verbatim>\<open>d.update(PdfDict(AS=PdfName(n), V=PdfName(n)))\<close> with \<open>n\<close> one of \<^verbatim>\<open>'Yes'\<close> and \<^verbatim>\<open>'Off'\<close>,
  and \<^verbatim>\<open>d.update(PdfDict(AP='', V=v))\<close>.\<close>

definition set_checkbox :: "pdf_dict \<Rightarrow> bool \<Rightarrow> pdf_dict" where
  "set_checkbox d b =
     (let n = NameObj (PdfName (if b then ''Yes'' else ''Off''))
      in d\<lparr>AS_KEY := Some n, ANNOT_VAL_KEY := Some n\<rparr>)"

definition set_text :: "pdf_dict \<Rightarrow> pyval \<Rightarrow> pdf_dict" where
  "set_text d v = d\<lparr>APPEARANCE_KEY := Some (ApStr []), ANNOT_VAL_KEY := Some (PyObj v)\<rparr>"

text \<open>\<^verbatim>\<open>annotation[APPEARANCE_KEY][D_KEY].keys()\<close>: subscripting \<^verbatim>\<open>None\<close> or a string with a
  name raises \<open>TypeError\<close>, and \<^verbatim>\<open>None.keys()\<close> raises \<open>AttributeError\<close>.\<close>

definition appearance_D_keys :: "pdf_dict \<Rightarrow> exn + string list" where
  "appearance_D_keys d =
     (case APPEARANCE_KEY d of
        None \<Rightarrow> Inl TypeError
      | Some (ApStr s) \<Rightarrow> Inl TypeError
      | Some (ApDict None) \<Rightarrow> Inl AttributeError
      | Some (ApDict (Some ks)) \<Rightarrow> Inr ks)"

text \<open>The body of the inner loop of \<^verbatim>\<open>fill_pdf\<close>. In the radio branch the parent is updated
  before the widget, and the widget is read again from the updated store.\<close>

definition fill_annotation :: "py_record \<Rightarrow> heap \<Rightarrow> nat \<Rightarrow> exn + heap" where
  "fill_annotation data_dict h a =
     (let annotation = h a in
      if SUBTYPE_KEY annotation = Some WIDGET_SUBTYPE_KEY then
        (case field_key annotation of
           Some t \<Rightarrow>
             (case map_of data_dict (slice_1_m1 t) of
                None \<Rightarrow> Inr h
              | Some (VBool b) \<Rightarrow> Inr (h(a := set_checkbox annotation b))
              | Some v \<Rightarrow> Inr (h(a := set_text annotation v)))
         | None \<Rightarrow>
             (case PARENT_KEY annotation of
                None \<Rightarrow> Inl TypeError
              | Some p \<Rightarrow>
                  (case field_key (h p) of
                     None \<Rightarrow> Inr h
                   | Some t \<Rightarrow>
                       (case map_of data_dict (slice_1_m1 t) of
                          None \<Rightarrow> Inr h
                        | Some (VDict (kv # kvs)) \<Rightarrow>
                            (let selected_radio_button = PdfName (fst kv) in
                             case appearance_D_keys annotation of
                               Inl e \<Rightarrow> Inl e
                             | Inr ks \<Rightarrow>
                                 if selected_radio_button \<in> set ks then
                                   (let h1 = h(p := (h p)\<lparr>ANNOT_VAL_KEY :=
                                                 Some (NameObj selected_radio_button)\<rparr>)
                                    in Inr (h1(a := (h1 a)\<lparr>AS_KEY :=
                                                 Some (NameObj selected_radio_button)\<rparr>)))
                                 else Inr h)
                        | Some (VBool b) \<Rightarrow> Inr (h(a := set_checkbox annotation b))
                        | Some v \<Rightarrow> Inr (h(p := set_text (h p) v))))))
      else Inr h)"

definition fill_page :: "py_record \<Rightarrow> heap \<Rightarrow> nat list option \<Rightarrow> exn + heap" where
  "fill_page data_dict h annotations =
     (case annotations of
        None \<Rightarrow> Inr h
      | Some annots \<Rightarrow> for_each (fill_annotation data_dict) annots h)"

text \<open>The walk of \<^verbatim>\<open>fill_pdf\<close> over the pages, which is all of \<^verbatim>\<open>fill_pdf\<close> that is modelled:
  \<open>Inr\<close> says that the walk completed. Creating the output directory, updating the
  \<^verbatim>\<open>AcroForm\<close> entry and writing the file come after the walk.\<close>

definition fill_pdf :: "py_record \<Rightarrow> pdf_pages \<Rightarrow> heap \<Rightarrow> exn + heap" where
  "fill_pdf data_dict pages h = for_each (fill_page data_dict) pages h"

section \<open>Fetching a record (redcap\_helpers.py)\<close>

text \<open>
  \<^verbatim>\<open>get_record\<close> posts a request and parses the answer with \<^verbatim>\<open>json.loads\<close>; the parsed answer
  is the input of the model. The API answers with a list of flat records or with an
  object such as \<^verbatim>\<open>{"error": "..."}\<close>; both have string values.
\<close>

datatype api_json = JsonList "string dict list" | JsonDict "string dict"

definition apostrophe :: string where
  "apostrophe = [CHR 0x27]"

definition get_record :: "api_json \<Rightarrow> string \<Rightarrow> string \<Rightarrow> exn + string dict" where
  "get_record record redcap_unique_identifier record_id =
     (case record of
        JsonDict d \<Rightarrow>
          (case map_of d ''error'' of
             None \<Rightarrow> Inl KeyError
           | Some e \<Rightarrow> if e \<noteq> [] then Inl (SystemExit 1) else Inr d)
      | JsonList l \<Rightarrow>
          if length l < 1 then
            Inl (LookupError (''No records found where '' @ apostrophe
                   @ redcap_unique_identifier @ apostrophe @ '' = '' @ record_id))
          else if length l > 1 then
            Inl (LookupError (''Multiple records found where '' @ apostrophe
                   @ redcap_unique_identifier @ apostrophe @ '' = '' @ record_id
                   @ '' (expected only 1)''))
          else Inr (hd l))"

section \<open>Command-line input (main.py)\<close>

text \<open>
  \<^verbatim>\<open>pathlib.Path\<close>, the file system and the clock are outside the program: the path
  constructor, the existence test and the default output name (built from the time of
  day) are parameters. The function returns the file-system accesses it made together
  with its result or exception.
\<close>

text \<open>The parsed arguments; \<open>record_identifier\<close> is the argument \<^verbatim>\<open>--identifier\<close>.\<close>

record cmd_line =
  record_identifier :: string
  record_variable :: string
  input_pdf :: string
  output_pdf :: "string option"

datatype 'p fs_event = PathExists 'p

definition get_cmd_line_input ::
  "(string \<Rightarrow> 'p) \<Rightarrow> ('p \<Rightarrow> bool) \<Rightarrow> string \<Rightarrow> cmd_line
     \<Rightarrow> 'p fs_event list \<times> (exn + string \<times> string \<times> 'p \<times> 'p)" where
  "get_cmd_line_input Path path_exists default_output_pdf inp =
     (if \<not> suffix ''.pdf'' (input_pdf inp) then ([], Inl ValueError)
      else
        (let input_pdf_path = Path (input_pdf inp) in
         if \<not> path_exists input_pdf_path then ([PathExists input_pdf_path], Inl FileNotFoundError)
         else
           (let output_pdf_path =
                  (case output_pdf inp of
                     None \<Rightarrow> Path default_output_pdf
                   | Some out \<Rightarrow> if out = [] then Path default_output_pdf else Path out)
            in if input_pdf_path = output_pdf_path
               then ([PathExists input_pdf_path], Inl FileExistsError)
               else ([PathExists input_pdf_path],
                     Inr (record_identifier inp, record_variable inp, input_pdf_path, output_pdf_path)))))"

section \<open>Notions of the specification\<close>

text \<open>The output path of a run, as a string: the one given on the command line, or the
  default when none, or an empty one, is given.\<close>

definition chosen_output_pdf :: "string \<Rightarrow> cmd_line \<Rightarrow> string" where
  "chosen_output_pdf default_output_pdf inp =
     (case output_pdf inp of
        None \<Rightarrow> default_output_pdf
      | Some out \<Rightarrow> if out = [] then default_output_pdf else out)"

text \<open>The portion of a string before the first occurrence of a separator; the whole
  string when the separator does not occur.\<close>

fun before_first :: "string \<Rightarrow> string \<Rightarrow> string" where
  "before_first sep [] = []"
| "before_first sep (c # cs) = (if prefix sep (c # cs) then [] else c # before_first sep cs)"

text \<open>The portion of a string after the first occurrence of a separator; empty when
  the separator does not occur.\<close>

fun after_first :: "string \<Rightarrow> string \<Rightarrow> string" where
  "after_first sep [] = []"
| "after_first sep (c # cs) =
     (if prefix sep (c # cs) then drop (length sep) (c # cs) else after_first sep cs)"

text \<open>
  The choice-text map as the specification describes it. An entry of the encoding,
  trimmed, is read as \<^verbatim>\<open>rawValue, displayText\<close>: the raw value is what stands before the
  first \<^verbatim>\<open>', '\<close> and the display text is all that follows it. The entries are the
  pieces between \<^verbatim>\<open>' | '\<close> when that separator occurs, and the pieces between \<^verbatim>\<open>'|'\<close>
  otherwise. Where a raw value or a field name occurs twice, the later occurrence
  counts.
\<close>

definition parse_choice :: "string \<Rightarrow> string \<times> string" where
  "parse_choice option =
     (let e = strip option in (before_first '', '' e, after_first '', '' e))"

definition choice_entries :: "string \<Rightarrow> string list" where
  "choice_entries enc = (if sublist '' | '' enc then split enc '' | '' else split enc ''|'')"

definition carries_choices :: "field_md \<Rightarrow> bool" where
  "carries_choices field =
     (case select_choices_or_calculations field of None \<Rightarrow> False | Some enc \<Rightarrow> enc \<noteq> [])"

definition display_text :: "field_md list \<Rightarrow> string \<Rightarrow> string \<Rightarrow> string option" where
  "display_text md name raw =
     (case filter (\<lambda>field. field_name field = name \<and> carries_choices field) (rev md) of
        [] \<Rightarrow> None
      | field # earlier \<Rightarrow>
          (case select_choices_or_calculations field of
             None \<Rightarrow> None
           | Some enc \<Rightarrow> map_of (rev (map parse_choice (choice_entries enc))) raw))"

text \<open>
  The checkbox and radio conversion as the specification describes it: a key that the
  token \<^verbatim>\<open>___\<close> splits into two or more parts, the first of them a checkbox field, is a
  checkbox key; the value of a key becomes a boolean for a checkbox key, a one-entry
  dictionary for a radio field, and stays a string otherwise; the staged entries are
  those of the radio keys with a non-empty raw value, under the key extended by the
  suffix.
\<close>

definition is_checkbox_key :: "string list \<Rightarrow> string \<Rightarrow> bool" where
  "is_checkbox_key checkboxes k \<longleftrightarrow>
     length (split k ''___'') \<ge> 2 \<and> hd (split k ''___'') \<in> set checkboxes"

definition converted_value :: "string list \<Rightarrow> string list \<Rightarrow> string \<Rightarrow> string \<Rightarrow> pyval" where
  "converted_value radio_buttons checkboxes k v =
     (if is_checkbox_key checkboxes k then VBool (v = ''1'')
      else if k \<in> set radio_buttons then VDict [(v, VBool True)]
      else VStr v)"

definition staged_choices :: "string list \<Rightarrow> string list \<Rightarrow> string dict \<Rightarrow> pyval dict" where
  "staged_choices radio_buttons checkboxes r =
     map (\<lambda>(k, v). (k @ ''__rchoice'', VStr v))
       (filter (\<lambda>(k, v). \<not> is_checkbox_key checkboxes k \<and> k \<in> set radio_buttons \<and> v \<noteq> []) r)"

text \<open>The logical field name of an annotation: for a widget, its own field name if it
  carries one, else the field name of its parent if that carries one, cut at the
  checkbox separator; nothing otherwise.\<close>

definition logical_field_name :: "heap \<Rightarrow> nat \<Rightarrow> string option" where
  "logical_field_name h a =
     (if SUBTYPE_KEY (h a) = Some ''/Widget'' then
        (case field_key (h a) of
           Some t \<Rightarrow> Some (before_first ''___'' (slice_1_m1 t))
         | None \<Rightarrow>
             (case PARENT_KEY (h a) of
                None \<Rightarrow> None
              | Some p \<Rightarrow> map_option (\<lambda>t. before_first ''___'' (slice_1_m1 t)) (field_key (h p))))
      else None)"

text \<open>All annotations of a document, page by page.\<close>

definition all_annotations :: "pdf_pages \<Rightarrow> nat list" where
  "all_annotations pages = concat (map (\<lambda>annotations. case annotations of None \<Rightarrow> [] | Some annots \<Rightarrow> annots) pages)"

text \<open>A sequence without its repetitions, every element at its first occurrence.\<close>

definition first_seen :: "'a list \<Rightarrow> 'a list" where
  "first_seen xs = rev (remdups (rev xs))"

text \<open>A radio-group entry of a normalised record: a dictionary with exactly one key,
  whose value is \<open>True\<close>.\<close>

definition single_true :: "py_record \<Rightarrow> string \<Rightarrow> bool" where
  "single_true r g \<longleftrightarrow> (\<exists>k. map_of r g = Some (VDict [(k, VBool True)]))"

section \<open>Properties\<close>

subsection \<open>Splitting and joining\<close>

lemma split_not_Nil: "split s sep \<noteq> []"
  by (cases s) auto

lemma join_Cons: "join sep (x # xs) = x @ (if xs = [] then [] else sep @ join sep xs)"
  by (cases xs) auto

lemma prefix_drop_pred:
  assumes "sep \<noteq> []" and "prefix sep (c # cs)"
  shows "c # cs = sep @ drop (length sep - 1) cs"
proof -
  from assms obtain zs where z: "c # cs = sep @ zs" by (auto simp: prefix_def)
  with assms(1) obtain sep' where "sep = c # sep'" by (cases sep) auto
  with z show ?thesis by auto
qed

lemma join_split: "sep \<noteq> [] \<Longrightarrow> join sep (split s sep) = s"
proof (induction s sep rule: split.induct)
  case (1 sep)
  then show ?case by simp
next
  case (2 c cs sep)
  show ?case
  proof (cases "prefix sep (c # cs)")
    case True
    with 2 have "join sep (split (drop (length sep - 1) cs) sep) = drop (length sep - 1) cs"
      by simp
    moreover have "split (c # cs) sep = [] # split (drop (length sep - 1) cs) sep"
      using True "2.prems" by simp
    ultimately have "join sep (split (c # cs) sep) = sep @ drop (length sep - 1) cs"
      by (simp add: join_Cons split_not_Nil)
    then show ?thesis
      by (simp only: prefix_drop_pred[OF "2.prems" True, symmetric])
  next
    case False
    with 2 have IH: "join sep (split cs sep) = cs" by simp
    obtain x xs where X: "split cs sep = x # xs"
      using split_not_Nil[of cs sep] by (cases "split cs sep") auto
    with IH False show ?thesis by (simp add: join_Cons)
  qed
qed

lemma hd_split: "sep \<noteq> [] \<Longrightarrow> hd (split s sep) = before_first sep s"
  by (induction s sep rule: split.induct) auto

lemma length_split_one: "sep \<noteq> [] \<Longrightarrow> length (split s sep) = 1 \<longleftrightarrow> \<not> sublist sep s"
proof (induction s sep rule: split.induct)
  case (1 sep)
  then show ?case by simp
next
  case (2 c cs sep)
  show ?case
  proof (cases "prefix sep (c # cs)")
    case True
    then show ?thesis using "2.prems" by (simp add: sublist_Cons_right split_not_Nil)
  next
    case False
    with 2 have IH: "length (split cs sep) = 1 \<longleftrightarrow> \<not> sublist sep cs" by simp
    obtain x xs where X: "split cs sep = x # xs"
      using split_not_Nil[of cs sep] by (cases "split cs sep") auto
    with IH False show ?thesis by (simp add: sublist_Cons_right)
  qed
qed

lemma join_tl_split: "sep \<noteq> [] \<Longrightarrow> join sep (tl (split s sep)) = after_first sep s"
proof (induction s sep rule: split.induct)
  case (1 sep)
  then show ?case by simp
next
  case (2 c cs sep)
  show ?case
  proof (cases "prefix sep (c # cs)")
    case True
    have "drop (length sep) (c # cs) = drop (length sep - 1) cs"
      using "2.prems" by (cases sep) auto
    with True "2.prems" show ?thesis by (simp add: join_split)
  next
    case False
    with 2 show ?thesis by simp
  qed
qed

lemma before_after_first:
  "s = before_first sep s @ (if sublist sep s then sep @ after_first sep s else [])"
proof (induction s)
  case Nil
  then show ?case by simp
next
  case (Cons c cs)
  then show ?case
    by (auto simp: sublist_Cons_right prefix_def)
qed

subsection \<open>Loops and dictionaries\<close>

lemma for_each_append:
  "for_each body (xs @ ys) s =
     (case for_each body xs s of Inl e \<Rightarrow> Inl e | Inr s' \<Rightarrow> for_each body ys s')"
  by (induction xs arbitrary: s) (auto split: sum.splits)

lemma map_of_dict_set: "map_of (dict_set d k v) = (map_of d)(k \<mapsto> v)"
  by (induction d) auto

lemma map_fst_dict_set:
  "map fst (dict_set d k v) = (if k \<in> fst ` set d then map fst d else map fst d @ [k])"
  by (induction d) (force simp: image_iff)+

lemma keys_dict_set: "fst ` set (dict_set d k v) = insert k (fst ` set d)"
  using arg_cong[OF map_fst_dict_set, of set d k v] by (auto simp: image_iff)

lemma distinct_dict_set: "distinct (map fst d) \<Longrightarrow> distinct (map fst (dict_set d k v))"
  by (simp add: map_fst_dict_set)

lemma any_iter_fst: "fst (any_iter xs) = (filter truthy xs \<noteq> [])"
  by (induction xs) auto

lemma any_iter_snd: "filter truthy (snd (any_iter xs)) = tl (filter truthy xs)"
  by (induction xs) auto

lemma contains_only_one_true_iff:
  "contains_only_one_true xs \<longleftrightarrow> length (filter truthy xs) = 1"
proof -
  have "contains_only_one_true xs \<longleftrightarrow>
      fst (any_iter xs) \<and> \<not> fst (any_iter (snd (any_iter xs)))"
    by (simp add: contains_only_one_true_def split: prod.splits)
  also have "\<dots> \<longleftrightarrow> filter truthy xs \<noteq> [] \<and> tl (filter truthy xs) = []"
    by (simp add: any_iter_fst any_iter_snd)
  also have "\<dots> \<longleftrightarrow> length (filter truthy xs) = 1"
    by (cases "filter truthy xs") auto
  finally show ?thesis .
qed

lemma truthy_bool: "is_bool v \<Longrightarrow> truthy v \<longleftrightarrow> v = VBool True"
  by (cases v) auto

lemma find_truthy_Some:
  "filter truthy (map snd d) \<noteq> [] \<Longrightarrow> \<exists>k v. find (\<lambda>(k, v). truthy v) d = Some (k, v) \<and> (k, v) \<in> set d \<and> truthy v"
  by (induction d) auto


lemma collapse_radio_group_establishes:
  assumes "collapse_radio_group r g = Inr r'"
  shows "single_true r' g"
proof -
  from assms obtain d where d: "map_of r g = Some (VDict d)"
    by (auto simp: collapse_radio_group_def split: option.splits pyval.splits)
  from assms d have bools: "\<forall>v \<in> set (map snd d). is_bool v"
    and one: "length (filter truthy (map snd d)) = 1"
    by (auto simp: collapse_radio_group_def Let_def list_ex_iff contains_only_one_true_iff split: if_splits)
  show ?thesis
  proof (cases "length d > 1")
    case True
    from one have "filter truthy (map snd d) \<noteq> []"
      by (metis list.size(3) zero_neq_one)
    from find_truthy_Some[OF this] obtain k v where
      f: "find (\<lambda>(k, v). truthy v) d = Some (k, v)" and m: "(k, v) \<in> set d" and t: "truthy v"
      by blast
    from m bools have "is_bool v" by force
    with t have v: "v = VBool True" by (simp add: truthy_bool)
    from assms d bools one True f have "r' = dict_set r g (VDict [(k, v)])"
      by (auto simp: collapse_radio_group_def Let_def list_ex_iff contains_only_one_true_iff)
    with v show ?thesis by (auto simp: single_true_def map_of_dict_set)
  next
    case False
    with one obtain k v where dd: "d = [(k, v)]"
      by (cases d) (auto split: if_splits)
    with one bools have "v = VBool True" by (cases v) (auto split: if_splits)
    moreover from assms d bools one False have "r' = r"
      by (auto simp: collapse_radio_group_def Let_def list_ex_iff contains_only_one_true_iff)
    ultimately show ?thesis using d dd by (auto simp: single_true_def)
  qed
qed

lemma collapse_radio_group_preserves:
  assumes "collapse_radio_group r g' = Inr r'" and "single_true r g"
  shows "single_true r' g"
proof (cases "g' = g")
  case True
  with assms(1) show ?thesis by (simp add: collapse_radio_group_establishes)
next
  case False
  from assms(1) have "r' = r \<or> (\<exists>v. r' = dict_set r g' v)"
    by (auto simp: collapse_radio_group_def Let_def split: option.splits pyval.splits if_splits)
  with False assms(2) show ?thesis
    by (auto simp: single_true_def map_of_dict_set)
qed

lemma for_each_collapse_preserves:
  "for_each collapse_radio_group gs r = Inr r' \<Longrightarrow> single_true r g \<Longrightarrow> single_true r' g"
  by (induction gs arbitrary: r) (auto split: sum.splits dest: collapse_radio_group_preserves)

lemma for_each_collapse_establishes:
  "for_each collapse_radio_group gs r = Inr r' \<Longrightarrow> g \<in> set gs \<Longrightarrow> single_true r' g"
  by (induction gs arbitrary: r)
     (auto split: sum.splits dest: collapse_radio_group_establishes for_each_collapse_preserves)


lemma radio_groups_append: "radio_groups (xs @ ys) = radio_groups xs @ radio_groups ys"
  by (simp add: radio_groups_def)

lemma radio_groups_Cons:
  "radio_groups (f # md) = (if field_type f = ''radio'' then field_name f # radio_groups md else radio_groups md)"
  by (simp add: radio_groups_def)

lemma collapse_radio_groups_split:
  assumes "field_type f = ''radio''" and "collapse_radio_groups r pre = Inr r1"
  shows "collapse_radio_groups r (pre @ f # post) =
           (case collapse_radio_group r1 (field_name f) of
              Inl e \<Rightarrow> Inl e
            | Inr r2 \<Rightarrow> collapse_radio_groups r2 post)"
  using assms
  by (simp add: collapse_radio_groups_def radio_groups_append radio_groups_Cons for_each_append
      split: sum.splits)

subsection \<open>The radio-group invariant of normalised records\<close>

text \<open>
  Claim C1. Whenever the pipeline \<open>prepare_for_fill\<close> (checkbox and radio conversion, then
  dropdown conversion, then radio-group collapse) accepts a raw record and a metadata
  list, every field that the metadata declares with type \<^verbatim>\<open>radio\<close> is mapped by the
  resulting record to a dictionary with exactly one key, and the value of that key is
  \<open>True\<close>.
\<close>


theorem prepare_for_fill_radio_invariant:
  assumes "prepare_for_fill record md = Inr r"
    and "field \<in> set md" and "field_type field = ''radio''"
  shows "\<exists>k. map_of r (field_name field) = Some (VDict [(k, VBool True)])"
proof -
  from assms(1) obtain r' where "collapse_radio_groups r' md = Inr r"
    by (auto simp: prepare_for_fill_def Let_def split: sum.splits)
  moreover from assms(2,3) have "field_name field \<in> set (radio_groups md)"
    by (auto simp: radio_groups_def)
  ultimately have "single_true r (field_name field)"
    unfolding collapse_radio_groups_def by (rule for_each_collapse_establishes)
  then show ?thesis by (simp add: single_true_def)
qed

theorem prepare_for_fill_radio_invariant_witness:
  "prepare_for_fill [(''rg1'', ''2''), (''note'', ''x'')]
      [\<lparr>field_name = ''rg1'', field_type = ''radio'',
         select_choices_or_calculations = Some ''1, Yes | 2, No''\<rparr>]
     = Inr [(''rg1'', VDict [(''2'', VBool True)]), (''note'', VStr ''x''), (''rg1__rchoice'', VStr ''2'')]
   \<and> (\<exists>k. map_of [(''rg1'', VDict [(''2'', VBool True)]), (''note'', VStr ''x''), (''rg1__rchoice'', VStr ''2'')] ''rg1''
          = Some (VDict [(k, VBool True)]))"
proof -
  let ?md = "[\<lparr>field_name = ''rg1'', field_type = ''radio'',
         select_choices_or_calculations = Some ''1, Yes | 2, No''\<rparr>]"
  have run: "prepare_for_fill [(''rg1'', ''2''), (''note'', ''x'')] ?md
     = Inr [(''rg1'', VDict [(''2'', VBool True)]), (''note'', VStr ''x''), (''rg1__rchoice'', VStr ''2'')]"
    by code_simp
  from prepare_for_fill_radio_invariant[OF run, of "hd ?md"] run show ?thesis
    by simp
qed

subsection \<open>Validation and collapse of one radio group\<close>

text \<open>
  Claim C4. When the loop of \<open>collapse_radio_groups\<close> reaches a field \<open>f\<close> of type
  \<^verbatim>\<open>radio\<close> (the fields before it having passed) and the current value of the field is
  a dictionary \<open>d\<close>: a non-boolean value in \<open>d\<close> raises \<open>TypeError\<close>; otherwise zero or more than
  one \<open>True\<close> among the values raises \<open>ValueError\<close>; otherwise a dictionary of more than one
  entry is replaced by the one-entry dictionary of its \<open>True\<close> key, a dictionary of one
  entry is kept, and the loop goes on with the remaining fields.
\<close>


theorem collapse_radio_groups_validation:
  assumes "field_type f = ''radio''"
    and "collapse_radio_groups r pre = Inr r1"
    and "map_of r1 (field_name f) = Some (VDict d)"
  shows "((\<exists>v \<in> snd ` set d. \<not> is_bool v) \<longrightarrow>
            collapse_radio_groups r (pre @ f # post) = Inl TypeError)
       \<and> ((\<forall>v \<in> snd ` set d. is_bool v) \<and> length (filter (\<lambda>(k, v). v = VBool True) d) \<noteq> 1 \<longrightarrow>
            collapse_radio_groups r (pre @ f # post) = Inl ValueError)
       \<and> ((\<forall>v \<in> snd ` set d. is_bool v) \<and> length (filter (\<lambda>(k, v). v = VBool True) d) = 1
             \<and> length d > 1 \<longrightarrow>
            (\<exists>k. (k, VBool True) \<in> set d \<and>
               collapse_radio_groups r (pre @ f # post) =
                 collapse_radio_groups (dict_set r1 (field_name f) (VDict [(k, VBool True)])) post))
       \<and> ((\<forall>v \<in> snd ` set d. is_bool v) \<and> length (filter (\<lambda>(k, v). v = VBool True) d) = 1
             \<and> length d \<le> 1 \<longrightarrow>
            collapse_radio_groups r (pre @ f # post) = collapse_radio_groups r1 post)"
proof -
  note split = collapse_radio_groups_split[OF assms(1,2), of post]
  have cnt: "length (filter truthy (map snd d)) = length (filter (\<lambda>(k, v). v = VBool True) d)"
    if "\<forall>v \<in> snd ` set d. is_bool v"
  proof -
    have "filter (truthy \<circ> snd) d = filter (\<lambda>(k, v). v = VBool True) d"
      using that by (intro filter_cong) (auto simp: truthy_bool)
    then show ?thesis by (simp add: filter_map)
  qed
  have A: "collapse_radio_group r1 (field_name f) = Inl TypeError"
    if "\<exists>v \<in> snd ` set d. \<not> is_bool v"
    using that assms(3) by (auto simp: collapse_radio_group_def list_ex_iff)
  have B: "collapse_radio_group r1 (field_name f) = Inl ValueError"
    if "\<forall>v \<in> snd ` set d. is_bool v" "length (filter (\<lambda>(k, v). v = VBool True) d) \<noteq> 1"
    using that assms(3) cnt
    by (auto simp: collapse_radio_group_def list_ex_iff contains_only_one_true_iff)
  have C: "\<exists>k. (k, VBool True) \<in> set d \<and>
      collapse_radio_group r1 (field_name f) = Inr (dict_set r1 (field_name f) (VDict [(k, VBool True)]))"
    if b: "\<forall>v \<in> snd ` set d. is_bool v" and o: "length (filter (\<lambda>(k, v). v = VBool True) d) = 1"
      and l: "length d > 1"
  proof -
    from o cnt[OF b] have one: "length (filter truthy (map snd d)) = 1" by simp
    then have "filter truthy (map snd d) \<noteq> []"
      by (metis list.size(3) zero_neq_one)
    from find_truthy_Some[OF this] obtain k v where
      f: "find (\<lambda>(k, v). truthy v) d = Some (k, v)" and m: "(k, v) \<in> set d" and t: "truthy v"
      by blast
    from m b have "is_bool v" by force
    with t have v: "v = VBool True" by (simp add: truthy_bool)
    from b one l f assms(3)
    have "collapse_radio_group r1 (field_name f) = Inr (dict_set r1 (field_name f) (VDict [(k, v)]))"
      by (auto simp: collapse_radio_group_def Let_def list_ex_iff contains_only_one_true_iff)
    with v m show ?thesis by blast
  qed
  have D: "collapse_radio_group r1 (field_name f) = Inr r1"
    if b: "\<forall>v \<in> snd ` set d. is_bool v" and o: "length (filter (\<lambda>(k, v). v = VBool True) d) = 1"
      and l: "length d \<le> 1"
    using that assms(3) cnt[OF b]
    by (auto simp: collapse_radio_group_def Let_def list_ex_iff contains_only_one_true_iff)
  show ?thesis
    using A B C D by (fastforce simp: split)
qed

theorem collapse_radio_groups_validation_witness:
  "collapse_radio_groups [(''rg'', VDict [(''1'', VBool False), (''2'', VBool True)])]
      [\<lparr>field_name = ''rg'', field_type = ''radio'', select_choices_or_calculations = None\<rparr>]
     = Inr [(''rg'', VDict [(''2'', VBool True)])]
   \<and> collapse_radio_groups [(''rg'', VDict [(''1'', VStr ''yes'')])]
      [\<lparr>field_name = ''rg'', field_type = ''radio'', select_choices_or_calculations = None\<rparr>]
     = Inl TypeError
   \<and> collapse_radio_groups [(''rg'', VDict [(''1'', VBool True), (''2'', VBool True)])]
      [\<lparr>field_name = ''rg'', field_type = ''radio'', select_choices_or_calculations = None\<rparr>]
     = Inl ValueError
   \<and> collapse_radio_groups [(''rg'', VDict [(''1'', VBool False)])]
      [\<lparr>field_name = ''rg'', field_type = ''radio'', select_choices_or_calculations = None\<rparr>]
     = Inl ValueError"
proof -
  let ?f = "\<lparr>field_name = ''rg'', field_type = ''radio'', select_choices_or_calculations = None\<rparr>"
  have ty: "field_type ?f = ''radio''" by simp
  have pre: "collapse_radio_groups r [] = Inr r" for r
    by (simp add: collapse_radio_groups_def radio_groups_def)
  have 1: "collapse_radio_groups [(''rg'', VDict [(''1'', VBool False), (''2'', VBool True)])] [?f]
     = Inr [(''rg'', VDict [(''2'', VBool True)])]"
    using collapse_radio_groups_validation[OF ty pre,
        of "[(''rg'', VDict [(''1'', VBool False), (''2'', VBool True)])]"
           "[(''1'', VBool False), (''2'', VBool True)]" "[]"]
    by (auto simp: pre)
  have 2: "collapse_radio_groups [(''rg'', VDict [(''1'', VStr ''yes'')])] [?f] = Inl TypeError"
    using collapse_radio_groups_validation[OF ty pre,
        of "[(''rg'', VDict [(''1'', VStr ''yes'')])]" "[(''1'', VStr ''yes'')]" "[]"]
    by simp
  have 3: "collapse_radio_groups [(''rg'', VDict [(''1'', VBool True), (''2'', VBool True)])] [?f]
     = Inl ValueError"
    using collapse_radio_groups_validation[OF ty pre,
        of "[(''rg'', VDict [(''1'', VBool True), (''2'', VBool True)])]"
           "[(''1'', VBool True), (''2'', VBool True)]" "[]"]
    by simp
  have 4: "collapse_radio_groups [(''rg'', VDict [(''1'', VBool False)])] [?f] = Inl ValueError"
    using collapse_radio_groups_validation[OF ty pre,
        of "[(''rg'', VDict [(''1'', VBool False)])]" "[(''1'', VBool False)]" "[]"]
    by simp
  from 1 2 3 4 show ?thesis by blast
qed

subsection \<open>The choice-text map\<close>

lemma code_parse_choice:
  "(hd (split (strip option) '', ''), join '', '' (tl (split (strip option) '', ''))) = parse_choice option"
  by (simp add: parse_choice_def Let_def hd_split join_tl_split)

lemma map_of_sub_dict_loop:
  "map_of (sub_dict_loop acc choices) = map_of acc ++ map_of (rev (map parse_choice choices))"
proof (induction choices arbitrary: acc)
  case Nil
  then show ?case by simp
next
  case (Cons option choices)
  obtain k v where kv: "parse_choice option = (k, v)" by (cases "parse_choice option")
  with code_parse_choice[of option]
  have step: "sub_dict_loop acc (option # choices) = sub_dict_loop (dict_set acc k v) choices"
    by (simp add: Let_def)
  have "map_of (sub_dict_loop (dict_set acc k v) choices)
      = (map_of acc)(k \<mapsto> v) ++ map_of (rev (map parse_choice choices))"
    by (simp only: Cons.IH map_of_dict_set)
  also have "\<dots> = map_of acc ++ map_of (rev (map parse_choice (option # choices)))"
    by (simp add: kv map_add_assoc[symmetric] map_add_upd)
  finally show ?case by (simp only: step)
qed

lemma choices_of_entries: "choices_of enc = choice_entries enc"
  using length_split_one[of "'' | ''" enc]
  by (simp add: choices_of_def choice_entries_def Let_def)

lemma map_of_multiple_choice_text_loop:
  "map_of (multiple_choice_text_loop texts md) name =
     (case filter (\<lambda>field. field_name field = name \<and> carries_choices field) (rev md) of
        [] \<Rightarrow> map_of texts name
      | field # earlier \<Rightarrow>
          map_option (\<lambda>enc. sub_dict_loop [] (choices_of enc)) (select_choices_or_calculations field))"
proof (induction md arbitrary: texts)
  case Nil
  then show ?case by simp
next
  case (Cons field md)
  show ?case
  proof (cases "filter (\<lambda>field. field_name field = name \<and> carries_choices field) (rev md)")
    case Nil
    then show ?thesis
      by (auto simp: Cons.IH carries_choices_def map_of_dict_set split: option.splits)
  next
    case (Cons f fs)
    then show ?thesis
      by (auto simp: Cons.IH carries_choices_def split: option.splits)
  qed
qed

lemma display_text_code:
  "display_text md name raw =
     (case map_of (get_multiple_choice_text md) name of
        None \<Rightarrow> None
      | Some sub_dict \<Rightarrow> map_of sub_dict raw)"
  by (auto simp: display_text_def get_multiple_choice_text_def map_of_multiple_choice_text_loop
      map_of_sub_dict_loop choices_of_entries carries_choices_def
      split: list.splits option.splits dest: filter_eq_ConsD)

lemma convert_dropdowns_split:
  assumes "for_each (convert_dropdown (get_multiple_choice_text (pre @ f # post))) pre r = Inr r1"
  shows "convert_dropdowns_to_strings r (pre @ f # post) =
           (case convert_dropdown (get_multiple_choice_text (pre @ f # post)) r1 f of
              Inl e \<Rightarrow> Inl e
            | Inr r2 \<Rightarrow> for_each (convert_dropdown (get_multiple_choice_text (pre @ f # post))) post r2)"
  using assms by (simp add: convert_dropdowns_to_strings_def for_each_append)


lemma for_each_preserves:
  assumes "\<And>s x s'. body s x = Inr s' \<Longrightarrow> Q s' = Q s"
  shows "for_each body xs s = Inr s' \<Longrightarrow> Q s' = Q s"
proof (induction xs arbitrary: s)
  case Nil
  then show ?case by simp
next
  case (Cons x xs)
  then obtain s1 where 1: "body s x = Inr s1" and 2: "for_each body xs s1 = Inr s'"
    by (auto split: sum.splits)
  from Cons.IH[OF 2] assms[OF 1] show ?case by simp
qed

lemma dom_dict_set_present:
  "map_of r k = Some w \<Longrightarrow> dom (map_of (dict_set r k v)) = dom (map_of r)"
  by (auto simp: map_of_dict_set)

lemma convert_dropdown_keys:
  assumes "convert_dropdown texts r f = Inr r'"
  shows "dom (map_of r') = dom (map_of r)"
proof -
  from assms have "r' = r \<or> (\<exists>k v w. map_of r k = Some w \<and> r' = dict_set r k v)"
    by (auto simp: convert_dropdown_def Let_def split: if_splits option.splits pyval.splits)
  then show ?thesis using dom_dict_set_present by metis
qed

lemma for_each_convert_dropdown_keys:
  "for_each (convert_dropdown texts) fs r = Inr r' \<Longrightarrow> dom (map_of r') = dom (map_of r)"
  by (rule for_each_preserves[where Q = "\<lambda>r. dom (map_of r)"]) (rule convert_dropdown_keys)

lemma collapse_radio_group_keys:
  assumes "collapse_radio_group r g = Inr r'"
  shows "dom (map_of r') = dom (map_of r)"
proof -
  from assms have "r' = r \<or> (\<exists>k v w. map_of r k = Some w \<and> r' = dict_set r k v)"
    by (auto simp: collapse_radio_group_def Let_def split: if_splits option.splits pyval.splits)
  then show ?thesis using dom_dict_set_present by metis
qed

lemma for_each_collapse_keys:
  "for_each collapse_radio_group gs r = Inr r' \<Longrightarrow> dom (map_of r') = dom (map_of r)"
  by (rule for_each_preserves[where Q = "\<lambda>r. dom (map_of r)"]) (rule collapse_radio_group_keys)

lemma map_of_None_keys: "map_of r k = None \<longleftrightarrow> k \<notin> fst ` set r"
  by (simp add: map_of_eq_None_iff)

lemma convert_dropdowns_missing:
  assumes "field_type f = ''dropdown''" and "field_name f \<notin> fst ` set r"
  shows "for_each (convert_dropdown texts) (pre @ f # post) r =
           (case for_each (convert_dropdown texts) pre r of
              Inl e \<Rightarrow> Inl e
            | Inr r1 \<Rightarrow> Inl KeyError)"
proof (cases "for_each (convert_dropdown texts) pre r")
  case (Inl e)
  then show ?thesis by (simp add: for_each_append)
next
  case (Inr r1)
  from for_each_convert_dropdown_keys[OF Inr] assms(2) have "map_of r1 (field_name f) = None"
    by (simp add: dom_map_of_conv_image_fst map_of_None_keys)
  with Inr assms(1) show ?thesis
    by (simp add: for_each_append convert_dropdown_def)
qed

lemma collapse_missing:
  assumes "field_name f \<notin> fst ` set r"
  shows "for_each collapse_radio_group (gs @ field_name f # gs') r =
           (case for_each collapse_radio_group gs r of
              Inl e \<Rightarrow> Inl e
            | Inr r1 \<Rightarrow> Inl KeyError)"
proof (cases "for_each collapse_radio_group gs r")
  case (Inl e)
  then show ?thesis by (simp add: for_each_append)
next
  case (Inr r1)
  from for_each_collapse_keys[OF Inr] assms have "map_of r1 (field_name f) = None"
    by (simp add: dom_map_of_conv_image_fst map_of_None_keys)
  with Inr show ?thesis
    by (simp add: for_each_append collapse_radio_group_def)
qed

subsection \<open>Dropdown conversion\<close>

text \<open>
  Claim C5. When the loop of \<open>convert_dropdowns_to_strings\<close> reaches a field \<open>f\<close> of type
  \<^verbatim>\<open>dropdown\<close> (the fields before it having passed) and the current value of the field is
  a string: the empty string is left unchanged; a non-empty raw value is replaced by the
  display text that the choice-text map gives it, and a raw value that the map does not
  know makes the conversion fail with \<open>KeyError\<close>. The map is the one of the
  specification (\<open>display_text\<close>): the encoding split on \<^verbatim>\<open>' | '\<close>, or on \<^verbatim>\<open>'|'\<close> when that
  gives a single piece; per trimmed entry, the raw value is the first piece between
  \<^verbatim>\<open>', '\<close> and the display text is the remaining pieces joined by \<^verbatim>\<open>', '\<close> again.
\<close>

theorem convert_dropdowns_to_strings_field:
  assumes "md = pre @ f # post" and "field_type f = ''dropdown''"
    and "for_each (convert_dropdown (get_multiple_choice_text md)) pre r = Inr r1"
    and "map_of r1 (field_name f) = Some (VStr raw)"
  shows "(raw = [] \<longrightarrow>
            convert_dropdowns_to_strings r md =
              for_each (convert_dropdown (get_multiple_choice_text md)) post r1)
       \<and> (raw \<noteq> [] \<longrightarrow>
            (case display_text md (field_name f) raw of
               Some t \<Rightarrow>
                 convert_dropdowns_to_strings r md =
                   for_each (convert_dropdown (get_multiple_choice_text md)) post
                     (dict_set r1 (field_name f) (VStr t))
             | None \<Rightarrow> convert_dropdowns_to_strings r md = Inl KeyError))"
  using assms(2,4) convert_dropdowns_split[OF assms(3)[unfolded assms(1)]]
  unfolding assms(1)
  by (auto simp: convert_dropdown_def display_text_code split: option.splits)

theorem convert_dropdowns_to_strings_field_witness:
  "convert_dropdowns_to_strings [(''dd1'', VStr ''2'')]
      [\<lparr>field_name = ''dd1'', field_type = ''dropdown'',
         select_choices_or_calculations = Some ''1, Red | 2, Blue''\<rparr>]
     = Inr [(''dd1'', VStr ''Blue'')]
   \<and> convert_dropdowns_to_strings [(''dd1'', VStr ''7'')]
      [\<lparr>field_name = ''dd1'', field_type = ''dropdown'',
         select_choices_or_calculations = Some ''1, Red | 2, Blue''\<rparr>]
     = Inl KeyError
   \<and> convert_dropdowns_to_strings [(''dd1'', VStr [])]
      [\<lparr>field_name = ''dd1'', field_type = ''dropdown'',
         select_choices_or_calculations = Some ''1, Red | 2, Blue''\<rparr>]
     = Inr [(''dd1'', VStr [])]"
proof -
  let ?f = "\<lparr>field_name = ''dd1'', field_type = ''dropdown'',
         select_choices_or_calculations = Some ''1, Red | 2, Blue''\<rparr>"
  have md: "[?f] = [] @ ?f # []" by simp
  have ty: "field_type ?f = ''dropdown''" by simp
  have pre: "for_each (convert_dropdown (get_multiple_choice_text [?f])) [] r = Inr r" for r
    by simp
  have blue: "display_text [?f] ''dd1'' ''2'' = Some ''Blue''" by code_simp
  have none: "display_text [?f] ''dd1'' ''7'' = None" by code_simp
  have 1: "convert_dropdowns_to_strings [(''dd1'', VStr ''2'')] [?f] = Inr [(''dd1'', VStr ''Blue'')]"
    using convert_dropdowns_to_strings_field[OF md ty pre, of "[(''dd1'', VStr ''2'')]" "''2''"] blue
    by simp
  have 2: "convert_dropdowns_to_strings [(''dd1'', VStr ''7'')] [?f] = Inl KeyError"
    using convert_dropdowns_to_strings_field[OF md ty pre, of "[(''dd1'', VStr ''7'')]" "''7''"] none
    by simp
  have 3: "convert_dropdowns_to_strings [(''dd1'', VStr [])] [?f] = Inr [(''dd1'', VStr [])]"
    using convert_dropdowns_to_strings_field[OF md ty pre, of "[(''dd1'', VStr [])]" "[]"]
    by simp
  from 1 2 3 show ?thesis by blast
qed

subsection \<open>Fields missing from the record\<close>

text \<open>
  Claim C10. When the record has no entry for a field \<open>f\<close> of the metadata, dropdown
  conversion (for \<open>f\<close> of type \<^verbatim>\<open>dropdown\<close>) and radio-group collapse (for \<open>f\<close> of type
  \<^verbatim>\<open>radio\<close>) never return normally; and when the fields before \<open>f\<close> pass, the exception
  is the \<open>KeyError\<close> of the lookup of the missing field: the field is not skipped.
\<close>

theorem missing_entry_raises_KeyError:
  assumes "md = pre @ f # post" and "field_name f \<notin> fst ` set r"
  shows "(field_type f = ''dropdown'' \<longrightarrow>
            (\<exists>e. convert_dropdowns_to_strings r md = Inl e)
          \<and> ((\<exists>r1. for_each (convert_dropdown (get_multiple_choice_text md)) pre r = Inr r1) \<longrightarrow>
               convert_dropdowns_to_strings r md = Inl KeyError))
       \<and> (field_type f = ''radio'' \<longrightarrow>
            (\<exists>e. collapse_radio_groups r md = Inl e)
          \<and> ((\<exists>r1. collapse_radio_groups r pre = Inr r1) \<longrightarrow>
               collapse_radio_groups r md = Inl KeyError))"
proof (intro conjI impI)
  assume ty: "field_type f = ''dropdown''"
  note eq = convert_dropdowns_missing[OF ty assms(2), of "get_multiple_choice_text md" pre post]
  show "\<exists>e. convert_dropdowns_to_strings r md = Inl e"
    using eq by (simp add: convert_dropdowns_to_strings_def assms(1) split: sum.splits)
  assume "\<exists>r1. for_each (convert_dropdown (get_multiple_choice_text md)) pre r = Inr r1"
  then show "convert_dropdowns_to_strings r md = Inl KeyError"
    using eq by (auto simp: convert_dropdowns_to_strings_def assms(1))
next
  assume ty: "field_type f = ''radio''"
  have gs: "radio_groups md = radio_groups pre @ field_name f # radio_groups post"
    using ty by (simp add: assms(1) radio_groups_append radio_groups_Cons)
  note eq = collapse_missing[OF assms(2), of "radio_groups pre" "radio_groups post"]
  show "\<exists>e. collapse_radio_groups r md = Inl e"
    using eq by (simp add: collapse_radio_groups_def gs split: sum.splits)
  assume "\<exists>r1. collapse_radio_groups r pre = Inr r1"
  then show "collapse_radio_groups r md = Inl KeyError"
    using eq by (auto simp: collapse_radio_groups_def gs)
qed

theorem missing_entry_raises_KeyError_witness:
  "convert_dropdowns_to_strings [(''note'', VStr ''x'')]
      [\<lparr>field_name = ''dd1'', field_type = ''dropdown'',
         select_choices_or_calculations = Some ''1, Red | 2, Blue''\<rparr>]
     = Inl KeyError
   \<and> collapse_radio_groups [(''note'', VStr ''x'')]
      [\<lparr>field_name = ''rg1'', field_type = ''radio'',
         select_choices_or_calculations = Some ''1, Yes | 2, No''\<rparr>]
     = Inl KeyError"
proof -
  let ?d = "\<lparr>field_name = ''dd1'', field_type = ''dropdown'',
         select_choices_or_calculations = Some ''1, Red | 2, Blue''\<rparr>"
  let ?g = "\<lparr>field_name = ''rg1'', field_type = ''radio'',
         select_choices_or_calculations = Some ''1, Yes | 2, No''\<rparr>"
  have 1: "convert_dropdowns_to_strings [(''note'', VStr ''x'')] [?d] = Inl KeyError"
    using missing_entry_raises_KeyError[of "[?d]" "[]" ?d "[]" "[(''note'', VStr ''x'')]"]
    by simp
  have 2: "collapse_radio_groups [(''note'', VStr ''x'')] [?g] = Inl KeyError"
    using missing_entry_raises_KeyError[of "[?g]" "[]" ?g "[]" "[(''note'', VStr ''x'')]"]
    by (simp add: collapse_radio_groups_def radio_groups_def)
  from 1 2 show ?thesis by blast
qed

subsection \<open>Checkbox and radio-button conversion\<close>

lemma map_of_rev_distinct: "distinct (map fst xs) \<Longrightarrow> map_of (rev xs) = map_of xs"
proof (rule ext)
  fix k assume d: "distinct (map fst xs)"
  then have d': "distinct (map fst (rev xs))" by (simp add: rev_map[symmetric])
  show "map_of (rev xs) k = map_of xs k"
  proof (cases "map_of xs k")
    case None
    then have "map_of (rev xs) k = None" by (simp add: map_of_eq_None_iff)
    with None show ?thesis by simp
  next
    case (Some v)
    with d have "(k, v) \<in> set (rev xs)" by simp
    with d' Some show ?thesis by simp
  qed
qed

lemma map_of_dict_set_apply:
  "map_of (dict_set d k v) k' = (if k' = k then Some v else map_of d k')"
  by (simp add: map_of_dict_set)

lemma map_of_dict_update: "map_of (dict_update d other) = map_of d ++ map_of (rev other)"
proof (induction other arbitrary: d)
  case Nil
  then show ?case by simp
next
  case (Cons kv other)
  obtain k v where kv: "kv = (k, v)" by (cases kv)
  show ?case
    unfolding kv
    by (rule ext) (simp add: Cons.IH map_add_def map_of_dict_set_apply split: option.splits)
qed

lemma distinct_dict_update:
  "distinct (map fst d) \<Longrightarrow> distinct (map fst (dict_update d other))"
  by (induction d other rule: dict_update.induct) (simp_all add: distinct_dict_set)

lemma convert_items_fst:
  "map_of (fst (convert_items rb cb items (r0, n0))) k =
     (case map_of (rev items) k of
        None \<Rightarrow> map_of r0 k
      | Some v \<Rightarrow>
          if is_checkbox_key cb k \<or> k \<in> set rb then Some (converted_value rb cb k v)
          else map_of r0 k)"
proof (induction items arbitrary: r0 n0)
  case Nil
  then show ?case by simp
next
  case (Cons item items)
  obtain x w where item: "item = (x, w)" by (cases item)
  define r1 where "r1 = (if is_checkbox_key cb x \<or> x \<in> set rb
      then dict_set r0 x (converted_value rb cb x w) else r0)"
  have "\<exists>n1. convert_items rb cb ((x, w) # items) (r0, n0) = convert_items rb cb items (r1, n1)"
    by (auto simp: r1_def Let_def is_checkbox_key_def converted_value_def)
  then obtain n1 where
    step: "convert_items rb cb ((x, w) # items) (r0, n0) = convert_items rb cb items (r1, n1)" ..
  have r1k: "map_of r1 k = (if k = x \<and> (is_checkbox_key cb x \<or> x \<in> set rb)
      then Some (converted_value rb cb x w) else map_of r0 k)"
    by (simp add: r1_def map_of_dict_set_apply)
  have look: "map_of (rev ((x, w) # items)) k =
      (case map_of (rev items) k of Some v \<Rightarrow> Some v | None \<Rightarrow> if k = x then Some w else None)"
    by (simp add: map_add_def split: option.splits)
  show ?case
    unfolding item step look Cons.IH[of r1 n1] r1k
    by (auto split: option.splits)
qed

lemma convert_items_snd:
  "map_of (snd (convert_items rb cb items (r0, n0))) k =
     (map_of n0 ++ map_of (rev (staged_choices rb cb items))) k"
proof (induction items arbitrary: r0 n0)
  case Nil
  then show ?case by (simp add: staged_choices_def)
next
  case (Cons item items)
  obtain x w where item: "item = (x, w)" by (cases item)
  define n1 where "n1 = (if \<not> is_checkbox_key cb x \<and> x \<in> set rb \<and> w \<noteq> []
      then dict_set n0 (x @ ''__rchoice'') (VStr w) else n0)"
  have "\<exists>r1. convert_items rb cb ((x, w) # items) (r0, n0) = convert_items rb cb items (r1, n1)"
    by (auto simp: n1_def Let_def is_checkbox_key_def RADIO_BUTTON_CHOICE_SUFFIX_def)
  then obtain r1 where
    step: "convert_items rb cb ((x, w) # items) (r0, n0) = convert_items rb cb items (r1, n1)" ..
  have st: "staged_choices rb cb ((x, w) # items) =
      (if \<not> is_checkbox_key cb x \<and> x \<in> set rb \<and> w \<noteq> [] then [(x @ ''__rchoice'', VStr w)] else [])
      @ staged_choices rb cb items"
    by (simp add: staged_choices_def)
  show ?case
    unfolding item step st Cons.IH[of r1 n1]
    by (auto simp: n1_def map_add_def map_of_dict_set_apply split: option.splits)
qed

lemma convert_items_snd_distinct:
  "distinct (map fst n0) \<Longrightarrow> distinct (map fst (snd (convert_items rb cb items (r0, n0))))"
  by (induction items arbitrary: r0 n0) (auto simp: Let_def distinct_dict_set)

lemma distinct_staged_choices:
  assumes "distinct (map fst r)"
  shows "distinct (map fst (staged_choices rb cb r))"
proof -
  have "map fst (staged_choices rb cb r) =
      map (\<lambda>k. k @ ''__rchoice'')
        (map fst (filter (\<lambda>(k, v). \<not> is_checkbox_key cb k \<and> k \<in> set rb \<and> v \<noteq> []) r))"
    by (simp add: staged_choices_def case_prod_unfold comp_def)
  moreover have d2: "distinct (map fst (filter (\<lambda>(k, v). \<not> is_checkbox_key cb k \<and> k \<in> set rb \<and> v \<noteq> []) r))"
    using assms by (rule distinct_map_filter)
  have "distinct (map (\<lambda>k. k @ ''__rchoice'')
        (map fst (filter (\<lambda>(k, v). \<not> is_checkbox_key cb k \<and> k \<in> set rb \<and> v \<noteq> []) r)))"
    by (subst distinct_map, rule conjI, rule d2) (simp add: inj_on_def)
  ultimately show ?thesis by (simp only:)
qed

lemma map_of_convert:
  assumes "distinct (map fst r)" and "get_radio_buttons_checkboxes md = (rb, cb)"
  shows "map_of (convert_checkboxes_and_radio_buttons r md) k =
     (case map_of (staged_choices rb cb r) k of
        Some s \<Rightarrow> Some s
      | None \<Rightarrow> map_option (converted_value rb cb k) (map_of r k))"
proof -
  obtain r' new where ci: "convert_items rb cb r (map (\<lambda>(k, v). (k, VStr v)) r, []) = (r', new)"
    by (cases "convert_items rb cb r (map (\<lambda>(k, v). (k, VStr v)) r, [])")
  have res: "convert_checkboxes_and_radio_buttons r md = dict_update r' new"
    by (simp add: convert_checkboxes_and_radio_buttons_def assms(2) ci)
  have dn: "distinct (map fst new)"
    using convert_items_snd_distinct[of "[]" rb cb r "map (\<lambda>(k, v). (k, VStr v)) r"] ci by simp
  have new: "map_of (rev new) k = map_of (staged_choices rb cb r) k"
    using convert_items_snd[of rb cb r "map (\<lambda>(k, v). (k, VStr v)) r" "[]" k] ci
    by (simp add: map_of_rev_distinct[OF dn] map_of_rev_distinct[OF distinct_staged_choices[OF assms(1)]])
  have r0: "map_of (map (\<lambda>(k, v). (k, VStr v)) r) k = map_option VStr (map_of r k)"
    by (simp add: map_of_map)
  have r': "map_of r' k = map_option (converted_value rb cb k) (map_of r k)"
    using convert_items_fst[of rb cb r "map (\<lambda>(k, v). (k, VStr v)) r" "[]" k] ci
    by (auto simp: map_of_rev_distinct[OF assms(1)] r0 converted_value_def split: option.splits)
  show ?thesis
    by (simp add: res map_of_dict_update new r' map_add_def split: option.splits)
qed

text \<open>
  Claim C3, as amended. For a raw record \<open>r\<close> (a dictionary, so its keys are distinct),
  the conversion maps every key \<open>k\<close> of \<open>r\<close> that is not one of the staged keys to its
  converted value: a boolean, true iff the raw string is \<^verbatim>\<open>"1"\<close>, for a checkbox key;
  otherwise the one-entry dictionary \<open>{v: True}\<close> for a radio field; otherwise the raw
  string. For every radio key with a non-empty raw value \<open>v\<close> the key extended by
  \<^verbatim>\<open>__rchoice\<close> holds \<open>v\<close> as text, also when the record already had that key. No other
  key is added.
\<close>

theorem convert_checkboxes_and_radio_buttons_values:
  assumes "distinct (map fst r)"
    and "get_radio_buttons_checkboxes md = (radio_buttons, checkboxes)"
  shows "((k, v) \<in> set r \<and> k \<notin> fst ` set (staged_choices radio_buttons checkboxes r) \<longrightarrow>
            map_of (convert_checkboxes_and_radio_buttons r md) k =
              Some (converted_value radio_buttons checkboxes k v))
       \<and> ((k, v) \<in> set r \<and> \<not> is_checkbox_key checkboxes k \<and> k \<in> set radio_buttons \<and> v \<noteq> [] \<longrightarrow>
            map_of (convert_checkboxes_and_radio_buttons r md) (k @ ''__rchoice'') = Some (VStr v))
       \<and> (k \<notin> fst ` set r \<and> k \<notin> fst ` set (staged_choices radio_buttons checkboxes r) \<longrightarrow>
            map_of (convert_checkboxes_and_radio_buttons r md) k = None)"
proof (intro conjI impI)
  note conv = map_of_convert[OF assms]
  {
    assume a: "(k, v) \<in> set r \<and> k \<notin> fst ` set (staged_choices radio_buttons checkboxes r)"
    then have "map_of (staged_choices radio_buttons checkboxes r) k = None"
      by (simp add: map_of_eq_None_iff)
    moreover from a assms(1) have "map_of r k = Some v" by simp
    ultimately show "map_of (convert_checkboxes_and_radio_buttons r md) k =
        Some (converted_value radio_buttons checkboxes k v)"
      by (simp add: conv)
  }
  {
    assume a: "(k, v) \<in> set r \<and> \<not> is_checkbox_key checkboxes k \<and> k \<in> set radio_buttons \<and> v \<noteq> []"
    then have "(k @ ''__rchoice'', VStr v) \<in> set (staged_choices radio_buttons checkboxes r)"
      by (force simp: staged_choices_def)
    with distinct_staged_choices[OF assms(1), of radio_buttons checkboxes]
    have "map_of (staged_choices radio_buttons checkboxes r) (k @ ''__rchoice'') = Some (VStr v)"
      by simp
    then show "map_of (convert_checkboxes_and_radio_buttons r md) (k @ ''__rchoice'') = Some (VStr v)"
      by (simp add: conv)
  }
  {
    assume a: "k \<notin> fst ` set r \<and> k \<notin> fst ` set (staged_choices radio_buttons checkboxes r)"
    then have "map_of (staged_choices radio_buttons checkboxes r) k = None" "map_of r k = None"
      by (simp_all add: map_of_eq_None_iff)
    then show "map_of (convert_checkboxes_and_radio_buttons r md) k = None"
      by (simp add: conv)
  }
qed

theorem convert_checkboxes_and_radio_buttons_values_witness:
  "map_of (convert_checkboxes_and_radio_buttons [(''r1'', ''3''), (''cb_1___3'', ''1''), (''note'', ''1'')]
      [\<lparr>field_name = ''r1'', field_type = ''radio'', select_choices_or_calculations = None\<rparr>,
       \<lparr>field_name = ''cb_1'', field_type = ''checkbox'', select_choices_or_calculations = None\<rparr>])
     ''r1'' = Some (VDict [(''3'', VBool True)])
   \<and> map_of (convert_checkboxes_and_radio_buttons [(''r1'', ''3''), (''cb_1___3'', ''1''), (''note'', ''1'')]
      [\<lparr>field_name = ''r1'', field_type = ''radio'', select_choices_or_calculations = None\<rparr>,
       \<lparr>field_name = ''cb_1'', field_type = ''checkbox'', select_choices_or_calculations = None\<rparr>])
     ''r1__rchoice'' = Some (VStr ''3'')
   \<and> map_of (convert_checkboxes_and_radio_buttons [(''r1'', ''3''), (''cb_1___3'', ''1''), (''note'', ''1'')]
      [\<lparr>field_name = ''r1'', field_type = ''radio'', select_choices_or_calculations = None\<rparr>,
       \<lparr>field_name = ''cb_1'', field_type = ''checkbox'', select_choices_or_calculations = None\<rparr>])
     ''cb_1___3'' = Some (VBool True)
   \<and> map_of (convert_checkboxes_and_radio_buttons [(''r1'', ''3''), (''cb_1___3'', ''1''), (''note'', ''1'')]
      [\<lparr>field_name = ''r1'', field_type = ''radio'', select_choices_or_calculations = None\<rparr>,
       \<lparr>field_name = ''cb_1'', field_type = ''checkbox'', select_choices_or_calculations = None\<rparr>])
     ''note'' = Some (VStr ''1'')
   \<and> map_of (convert_checkboxes_and_radio_buttons [(''r1'', ''3''), (''cb_1___3'', ''1''), (''note'', ''1'')]
      [\<lparr>field_name = ''r1'', field_type = ''radio'', select_choices_or_calculations = None\<rparr>,
       \<lparr>field_name = ''cb_1'', field_type = ''checkbox'', select_choices_or_calculations = None\<rparr>])
     ''other'' = None"
proof -
  let ?r = "[(''r1'', ''3''), (''cb_1___3'', ''1''), (''note'', ''1'')]"
  let ?md = "[\<lparr>field_name = ''r1'', field_type = ''radio'', select_choices_or_calculations = None\<rparr>,
       \<lparr>field_name = ''cb_1'', field_type = ''checkbox'', select_choices_or_calculations = None\<rparr>]"
  have d: "distinct (map fst ?r)" by simp
  have g: "get_radio_buttons_checkboxes ?md = ([''r1''], [''cb_1''])"
    by (simp add: get_radio_buttons_checkboxes_def)
  have st: "staged_choices [''r1''] [''cb_1''] ?r = [(''r1__rchoice'', VStr ''3'')]"
    by code_simp
  have ck: "\<not> is_checkbox_key [''cb_1''] ''r1''" "is_checkbox_key [''cb_1''] ''cb_1___3''"
    "\<not> is_checkbox_key [''cb_1''] ''note''"
    by code_simp+
  note inst = convert_checkboxes_and_radio_buttons_values[OF d g]
  have 1: "map_of (convert_checkboxes_and_radio_buttons ?r ?md) ''r1'' = Some (VDict [(''3'', VBool True)])"
    using inst[of "''r1''" "''3''"] by (simp add: st ck converted_value_def)
  have 2: "map_of (convert_checkboxes_and_radio_buttons ?r ?md) ''r1__rchoice'' = Some (VStr ''3'')"
    using inst[of "''r1''" "''3''"] by (simp add: ck)
  have 3: "map_of (convert_checkboxes_and_radio_buttons ?r ?md) ''cb_1___3'' = Some (VBool True)"
    using inst[of "''cb_1___3''" "''1''"] by (simp add: st ck converted_value_def)
  have 4: "map_of (convert_checkboxes_and_radio_buttons ?r ?md) ''note'' = Some (VStr ''1'')"
    using inst[of "''note''" "''1''"] by (simp add: st ck converted_value_def)
  have 5: "map_of (convert_checkboxes_and_radio_buttons ?r ?md) ''other'' = None"
    using inst[of "''other''"] by (simp add: st)
  from 1 2 3 4 5 show ?thesis by blast
qed

text \<open>
  Claim C3 as stated lets all other keys keep their value. The merge of the staged
  entries overwrites a key of the record that equals a staged key: below,
  \<^verbatim>\<open>r1__rchoice\<close> is neither a checkbox key nor a radio field, and its value \<^verbatim>\<open>"x"\<close> is
  replaced by the raw value of \<^verbatim>\<open>r1\<close>.
\<close>

theorem convert_checkboxes_and_radio_buttons_overwrites:
  "converted_value [''r1''] [] ''r1__rchoice'' ''x'' = VStr ''x''
   \<and> convert_checkboxes_and_radio_buttons [(''r1'', ''3''), (''r1__rchoice'', ''x'')]
        [\<lparr>field_name = ''r1'', field_type = ''radio'', select_choices_or_calculations = None\<rparr>]
      = [(''r1'', VDict [(''3'', VBool True)]), (''r1__rchoice'', VStr ''3'')]"
  by code_simp

subsection \<open>Field discovery\<close>

lemma before_first_no_occurrence: "\<not> sublist sep s \<Longrightarrow> before_first sep s = s"
  by (induction s) (auto simp: sublist_Cons_right)

lemma cut_at_separator_before_first: "cut_at_separator key = before_first ''___'' key"
  by (simp add: cut_at_separator_def hd_split before_first_no_occurrence)

lemma remdups_snoc: "remdups (ys @ [n]) = filter (\<lambda>x. x \<noteq> n) (remdups ys) @ [n]"
  by (induction ys) auto

lemma first_seen_Cons: "first_seen (n # xs) = n # first_seen (filter (\<lambda>x. x \<noteq> n) xs)"
  by (simp add: first_seen_def remdups_snoc rev_filter remdups_filter)

lemma first_seen_Nil: "first_seen [] = []"
  by (simp add: first_seen_def)

lemma distinct_first_seen: "distinct (first_seen xs)"
  by (simp add: first_seen_def)

lemma set_first_seen: "set (first_seen xs) = set xs"
  by (simp add: first_seen_def)

lemma fold_append_new:
  "fold (\<lambda>n res. append_new res n) names result =
     result @ first_seen (filter (\<lambda>x. x \<notin> set result) names)"
proof (induction names arbitrary: result)
  case Nil
  then show ?case by (simp add: first_seen_Nil)
next
  case (Cons n names)
  show ?case
  proof (cases "n \<in> set result")
    case True
    then have "append_new result n = result" by (simp add: append_new_def)
    with True show ?thesis by (simp add: Cons.IH)
  next
    case False
    then have new: "append_new result n = result @ [n]" by (simp add: append_new_def)
    have "filter (\<lambda>x. x \<notin> set (result @ [n])) names =
        filter (\<lambda>x. x \<noteq> n) (filter (\<lambda>x. x \<notin> set result) names)"
      by (induction names) auto
    with False new show ?thesis
      by (simp add: Cons.IH first_seen_Cons)
  qed
qed

lemma get_pdf_fields_annotation_spec:
  assumes "SUBTYPE_KEY (h a) = Some ''/Widget'' \<and> field_key (h a) = None \<longrightarrow> PARENT_KEY (h a) \<noteq> None"
  shows "get_pdf_fields_annotation h result a =
    Inr (case logical_field_name h a of None \<Rightarrow> result | Some n \<Rightarrow> append_new result n)"
  using assms
  by (auto simp: get_pdf_fields_annotation_def logical_field_name_def WIDGET_SUBTYPE_KEY_def
      cut_at_separator_before_first Let_def split: option.splits)

lemma for_each_annotations_spec:
  assumes "\<forall>a \<in> set annots. SUBTYPE_KEY (h a) = Some ''/Widget'' \<and> field_key (h a) = None \<longrightarrow> PARENT_KEY (h a) \<noteq> None"
  shows "for_each (get_pdf_fields_annotation h) annots result =
    Inr (fold (\<lambda>n res. append_new res n) (List.map_filter (logical_field_name h) annots) result)"
  using assms
proof (induction annots arbitrary: result)
  case Nil
  then show ?case by (simp add: map_filter_simps)
next
  case (Cons a annots)
  then show ?case
    by (simp add: get_pdf_fields_annotation_spec map_filter_simps split: option.splits)
qed

lemma map_filter_append: "List.map_filter f (xs @ ys) = List.map_filter f xs @ List.map_filter f ys"
  by (simp add: List.map_filter_def)

lemma for_each_pages_spec:
  assumes "\<forall>a \<in> set (all_annotations pages). SUBTYPE_KEY (h a) = Some ''/Widget'' \<and> field_key (h a) = None \<longrightarrow> PARENT_KEY (h a) \<noteq> None"
  shows "for_each (get_pdf_fields_page h) pages result =
    Inr (fold (\<lambda>n res. append_new res n)
           (List.map_filter (logical_field_name h) (all_annotations pages)) result)"
  using assms
proof (induction pages arbitrary: result)
  case Nil
  then show ?case by (simp add: all_annotations_def map_filter_simps)
next
  case (Cons page pages)
  from Cons.prems have rest: "\<forall>a \<in> set (all_annotations pages). SUBTYPE_KEY (h a) = Some ''/Widget'' \<and> field_key (h a) = None \<longrightarrow> PARENT_KEY (h a) \<noteq> None"
    by (simp add: all_annotations_def)
  show ?case
  proof (cases page)
    case None
    then show ?thesis using Cons.IH[OF rest]
      by (simp add: get_pdf_fields_page_def all_annotations_def)
  next
    case (Some annots)
    with Cons.prems have "\<forall>a \<in> set annots. SUBTYPE_KEY (h a) = Some ''/Widget'' \<and> field_key (h a) = None \<longrightarrow> PARENT_KEY (h a) \<noteq> None"
      by (simp add: all_annotations_def)
    from for_each_annotations_spec[OF this] Some Cons.IH[OF rest] show ?thesis
      by (simp add: get_pdf_fields_page_def all_annotations_def map_filter_append)
  qed
qed

text \<open>
  If every widget without a field name of its own has a parent, then \<open>get_pdf_fields\<close>
  returns, and what it returns is the sequence of the logical field names of the widget
  annotations of all pages, in page and annotation order, without repetitions and with
  every name at its first occurrence. The logical name of a widget is its own field name
  if it carries one, else the field name of its parent, cut before the first \<^verbatim>\<open>___\<close>: an
  annotation named \<^verbatim>\<open>cb_1___3\<close> yields \<^verbatim>\<open>cb_1\<close>.
\<close>

lemma get_pdf_fields_first_seen:
  assumes "\<forall>a \<in> set (all_annotations pages).
             SUBTYPE_KEY (h a) = Some ''/Widget'' \<and> field_key (h a) = None \<longrightarrow> PARENT_KEY (h a) \<noteq> None"
  shows "get_pdf_fields h pages =
           Inr (first_seen (List.map_filter (logical_field_name h) (all_annotations pages)))"
  using for_each_pages_spec[OF assms, of "[]"]
  by (simp add: get_pdf_fields_def fold_append_new)

lemma get_pdf_fields_first_seen_example:
  "get_pdf_fields
     ((\<lambda>_. PdfDict)
        (0 := PdfDict\<lparr>SUBTYPE_KEY := Some ''/Widget'', ANNOT_FIELD_KEY := Some ''(cb_1___3)''\<rparr>,
         1 := PdfDict\<lparr>SUBTYPE_KEY := Some ''/Widget'', PARENT_KEY := Some 3\<rparr>,
         2 := PdfDict\<lparr>SUBTYPE_KEY := Some ''/Widget'', ANNOT_FIELD_KEY := Some ''(cb_1___4)''\<rparr>,
         3 := PdfDict\<lparr>ANNOT_FIELD_KEY := Some ''(rg1)''\<rparr>))
     [Some [0, 1], None, Some [2, 1, 3]]
   = Inr [''cb_1'', ''rg1'']"
proof -
  let ?h = "(\<lambda>_. PdfDict)
        (0 := PdfDict\<lparr>SUBTYPE_KEY := Some ''/Widget'', ANNOT_FIELD_KEY := Some ''(cb_1___3)''\<rparr>,
         1 := PdfDict\<lparr>SUBTYPE_KEY := Some ''/Widget'', PARENT_KEY := Some (3::nat)\<rparr>,
         2 := PdfDict\<lparr>SUBTYPE_KEY := Some ''/Widget'', ANNOT_FIELD_KEY := Some ''(cb_1___4)''\<rparr>,
         3 := PdfDict\<lparr>ANNOT_FIELD_KEY := Some ''(rg1)''\<rparr>)"
  let ?pages = "[Some [0, 1], None, Some [2, 1, 3::nat]]"
  have pre: "\<forall>a \<in> set (all_annotations ?pages).
             SUBTYPE_KEY (?h a) = Some ''/Widget'' \<and> field_key (?h a) = None \<longrightarrow> PARENT_KEY (?h a) \<noteq> None"
    by (simp add: all_annotations_def PdfDict_def field_key_def)
  have e: "first_seen (List.map_filter (logical_field_name ?h) (all_annotations ?pages)) = [''cb_1'', ''rg1'']"
    by code_simp
  show ?thesis by (simp only: get_pdf_fields_first_seen[OF pre] e)
qed

text \<open>
  Claim C6 says that field discovery returns the logical field names of all widget
  annotations, in first-seen order and without repetitions. On a template where a
  widget has neither a field name nor a parent it returns nothing: below, the logical
  field names of the page are the single name \<^verbatim>\<open>cb_1\<close>, and \<open>get_pdf_fields\<close> raises
  \<open>TypeError\<close> at the second widget.
\<close>

theorem get_pdf_fields_raises_after_named_widget:
  "first_seen (List.map_filter
      (logical_field_name
        ((\<lambda>_. PdfDict)
           (0 := PdfDict\<lparr>SUBTYPE_KEY := Some ''/Widget'', ANNOT_FIELD_KEY := Some ''(cb_1___3)''\<rparr>,
            1 := PdfDict\<lparr>SUBTYPE_KEY := Some ''/Widget''\<rparr>)))
      (all_annotations [Some [0, 1]])) = [''cb_1'']
   \<and> get_pdf_fields
        ((\<lambda>_. PdfDict)
           (0 := PdfDict\<lparr>SUBTYPE_KEY := Some ''/Widget'', ANNOT_FIELD_KEY := Some ''(cb_1___3)''\<rparr>,
            1 := PdfDict\<lparr>SUBTYPE_KEY := Some ''/Widget''\<rparr>))
        [Some [0, 1]] = Inl TypeError"
  by code_simp

subsection \<open>Widgets without a name\<close>

text \<open>A widget without a field name whose parent exists and has no field name either is
  skipped by both walks.\<close>

lemma nameless_parent_skipped:
  assumes "SUBTYPE_KEY (h a) = Some ''/Widget''" and "field_key (h a) = None"
    and "PARENT_KEY (h a) = Some p" and "field_key (h p) = None"
  shows "get_pdf_fields_annotation h result a = Inr result"
    and "fill_annotation data_dict h a = Inr h"
  using assms
  by (simp_all add: get_pdf_fields_annotation_def fill_annotation_def WIDGET_SUBTYPE_KEY_def)

text \<open>
  Claim C7 says that both walks skip, without error, every widget that has neither a
  field name nor a parent with a field name. A widget with neither a field name nor a
  parent is not skipped: both \<open>get_pdf_fields\<close> and \<open>fill_pdf\<close> subscript the missing parent
  and raise \<open>TypeError\<close>.
\<close>

theorem parentless_widget_raises:
  "get_pdf_fields (\<lambda>_. PdfDict\<lparr>SUBTYPE_KEY := Some ''/Widget''\<rparr>) [Some [0]] = Inl TypeError
   \<and> fill_pdf [(''rg1'', VDict [(''2'', VBool True)])] [Some [0]]
        (\<lambda>_. PdfDict\<lparr>SUBTYPE_KEY := Some ''/Widget''\<rparr>) = Inl TypeError"
  by (simp add: get_pdf_fields_def get_pdf_fields_page_def get_pdf_fields_annotation_def
      fill_pdf_def fill_page_def fill_annotation_def PdfDict_def field_key_def
      WIDGET_SUBTYPE_KEY_def)

subsection \<open>Filling a grouped radio widget\<close>

text \<open>
  Claim C2, as amended. For a grouped widget (no field name of its own, its parent
  supplies the group name) whose group name is a key of the record with a non-empty
  dictionary as value, and which has an appearance dictionary with a \<^verbatim>\<open>/D\<close> entry: the
  first key of the dictionary is the chosen raw value; if its name is among the keys of
  the widget's own \<^verbatim>\<open>/D\<close> entry, the value of the parent and the appearance state of
  the widget are set to it and nothing else changes; if it is not, nothing changes and
  no error is raised.
\<close>

theorem fill_annotation_radio:
  assumes "SUBTYPE_KEY (h a) = Some ''/Widget''" and "field_key (h a) = None"
    and "PARENT_KEY (h a) = Some p" and "field_key (h p) = Some t"
    and "map_of data_dict (slice_1_m1 t) = Some (VDict ((k, v) # kvs))"
    and "appearance_D_keys (h a) = Inr ks"
  shows "(PdfName k \<in> set ks \<longrightarrow>
            fill_annotation data_dict h a =
              Inr (h(p := (h p)\<lparr>ANNOT_VAL_KEY := Some (NameObj (PdfName k))\<rparr>,
                     a := (h a)\<lparr>AS_KEY := Some (NameObj (PdfName k))\<rparr>)))
       \<and> (PdfName k \<notin> set ks \<longrightarrow> fill_annotation data_dict h a = Inr h)"
proof -
  from assms(2,4) have "a \<noteq> p" by auto
  with assms show ?thesis
    by (simp add: fill_annotation_def WIDGET_SUBTYPE_KEY_def Let_def)
qed

theorem fill_annotation_radio_witness:
  "fill_annotation [(''rg1'', VDict [(''2'', VBool True)])]
     ((\<lambda>_. PdfDict)
        (0 := PdfDict\<lparr>SUBTYPE_KEY := Some ''/Widget'', PARENT_KEY := Some 1,
                       APPEARANCE_KEY := Some (ApDict (Some [''/1'', ''/2'', ''/Off'']))\<rparr>,
         1 := PdfDict\<lparr>ANNOT_FIELD_KEY := Some ''(rg1)''\<rparr>)) 0
   = Inr ((\<lambda>_. PdfDict)
        (0 := PdfDict\<lparr>SUBTYPE_KEY := Some ''/Widget'', PARENT_KEY := Some 1,
                       APPEARANCE_KEY := Some (ApDict (Some [''/1'', ''/2'', ''/Off''])),
                       AS_KEY := Some (NameObj ''/2'')\<rparr>,
         1 := PdfDict\<lparr>ANNOT_FIELD_KEY := Some ''(rg1)'', ANNOT_VAL_KEY := Some (NameObj ''/2'')\<rparr>))
   \<and> fill_annotation [(''rg1'', VDict [(''9'', VBool True)])]
     ((\<lambda>_. PdfDict)
        (0 := PdfDict\<lparr>SUBTYPE_KEY := Some ''/Widget'', PARENT_KEY := Some 1,
                       APPEARANCE_KEY := Some (ApDict (Some [''/1'', ''/2'', ''/Off'']))\<rparr>,
         1 := PdfDict\<lparr>ANNOT_FIELD_KEY := Some ''(rg1)''\<rparr>)) 0
   = Inr ((\<lambda>_. PdfDict)
        (0 := PdfDict\<lparr>SUBTYPE_KEY := Some ''/Widget'', PARENT_KEY := Some 1,
                       APPEARANCE_KEY := Some (ApDict (Some [''/1'', ''/2'', ''/Off'']))\<rparr>,
         1 := PdfDict\<lparr>ANNOT_FIELD_KEY := Some ''(rg1)''\<rparr>))"
proof -
  let ?h = "(\<lambda>_. PdfDict)
        (0 := PdfDict\<lparr>SUBTYPE_KEY := Some ''/Widget'', PARENT_KEY := Some (1::nat),
                       APPEARANCE_KEY := Some (ApDict (Some [''/1'', ''/2'', ''/Off'']))\<rparr>,
         (1::nat) := PdfDict\<lparr>ANNOT_FIELD_KEY := Some ''(rg1)''\<rparr>)"
  have 1: "SUBTYPE_KEY (?h 0) = Some ''/Widget''" and 2: "field_key (?h 0) = None"
    and 3: "PARENT_KEY (?h 0) = Some 1" and 4: "field_key (?h 1) = Some ''(rg1)''"
    and 6: "appearance_D_keys (?h 0) = Inr [''/1'', ''/2'', ''/Off'']"
    by (simp_all add: PdfDict_def field_key_def appearance_D_keys_def)
  have 5: "map_of [(''rg1'', VDict [(k, VBool True)])] (slice_1_m1 ''(rg1)'')
      = Some (VDict ((k, VBool True) # []))" for k
    by (simp add: slice_1_m1_def)
  have mem2: "PdfName ''2'' \<in> set [''/1'', ''/2'', ''/Off'']"
    and mem9: "PdfName ''9'' \<notin> set [''/1'', ''/2'', ''/Off'']"
    by (simp_all add: PdfName_def)
  have a: "fill_annotation [(''rg1'', VDict [(''2'', VBool True)])] ?h 0 =
      Inr (?h(1 := (?h 1)\<lparr>ANNOT_VAL_KEY := Some (NameObj (PdfName ''2''))\<rparr>,
              0 := (?h 0)\<lparr>AS_KEY := Some (NameObj (PdfName ''2''))\<rparr>))"
    using fill_annotation_radio[OF 1 2 3 4 5 6, of "''2''"] mem2 by blast
  have b: "fill_annotation [(''rg1'', VDict [(''9'', VBool True)])] ?h 0 = Inr ?h"
    using fill_annotation_radio[OF 1 2 3 4 5 6, of "''9''"] mem9 by blast
  have c: "?h(1 := (?h 1)\<lparr>ANNOT_VAL_KEY := Some (NameObj (PdfName ''2''))\<rparr>,
              0 := (?h 0)\<lparr>AS_KEY := Some (NameObj (PdfName ''2''))\<rparr>)
      = (\<lambda>_. PdfDict)
        (0 := PdfDict\<lparr>SUBTYPE_KEY := Some ''/Widget'', PARENT_KEY := Some 1,
                       APPEARANCE_KEY := Some (ApDict (Some [''/1'', ''/2'', ''/Off''])),
                       AS_KEY := Some (NameObj ''/2'')\<rparr>,
         1 := PdfDict\<lparr>ANNOT_FIELD_KEY := Some ''(rg1)'', ANNOT_VAL_KEY := Some (NameObj ''/2'')\<rparr>)"
    by (rule ext) (simp add: PdfName_def PdfDict_def)
  show ?thesis by (simp only: a b c)
qed

text \<open>
  Claim C2 as stated tests the chosen value against the appearance states that the
  parent declares. The code reads those of the widget: below, the parent declares
  \<^verbatim>\<open>/2\<close>, the widget does not, and neither is changed.
\<close>

theorem fill_annotation_parent_states_ignored:
  "appearance_D_keys (PdfDict\<lparr>ANNOT_FIELD_KEY := Some ''(rg1)'',
       APPEARANCE_KEY := Some (ApDict (Some [''/1'', ''/2'']))\<rparr>) = Inr [''/1'', ''/2'']
   \<and> fill_annotation [(''rg1'', VDict [(''2'', VBool True)])]
     ((\<lambda>_. PdfDict)
        (0 := PdfDict\<lparr>SUBTYPE_KEY := Some ''/Widget'', PARENT_KEY := Some 1,
                       APPEARANCE_KEY := Some (ApDict (Some [''/1'', ''/Off'']))\<rparr>,
         1 := PdfDict\<lparr>ANNOT_FIELD_KEY := Some ''(rg1)'',
                       APPEARANCE_KEY := Some (ApDict (Some [''/1'', ''/2'']))\<rparr>)) 0
   = Inr ((\<lambda>_. PdfDict)
        (0 := PdfDict\<lparr>SUBTYPE_KEY := Some ''/Widget'', PARENT_KEY := Some 1,
                       APPEARANCE_KEY := Some (ApDict (Some [''/1'', ''/Off'']))\<rparr>,
         1 := PdfDict\<lparr>ANNOT_FIELD_KEY := Some ''(rg1)'',
                       APPEARANCE_KEY := Some (ApDict (Some [''/1'', ''/2'']))\<rparr>))"
  by (simp add: fill_annotation_def appearance_D_keys_def PdfDict_def field_key_def
      WIDGET_SUBTYPE_KEY_def PdfName_def slice_1_m1_def)

text \<open>
  A grouped widget without an appearance dictionary, or whose appearance dictionary has
  no \<^verbatim>\<open>/D\<close> entry, is not skipped either: reading the keys of the missing entry raises.
\<close>

lemma fill_annotation_no_appearance_raises:
  "fill_annotation [(''rg1'', VDict [(''2'', VBool True)])]
     ((\<lambda>_. PdfDict)
        (0 := PdfDict\<lparr>SUBTYPE_KEY := Some ''/Widget'', PARENT_KEY := Some 1\<rparr>,
         1 := PdfDict\<lparr>ANNOT_FIELD_KEY := Some ''(rg1)''\<rparr>)) 0
   = Inl TypeError"
  "fill_annotation [(''rg1'', VDict [(''2'', VBool True)])]
     ((\<lambda>_. PdfDict)
        (0 := PdfDict\<lparr>SUBTYPE_KEY := Some ''/Widget'', PARENT_KEY := Some 1,
                       APPEARANCE_KEY := Some (ApDict None)\<rparr>,
         1 := PdfDict\<lparr>ANNOT_FIELD_KEY := Some ''(rg1)''\<rparr>)) 0
   = Inl AttributeError"
  by (simp_all add: fill_annotation_def appearance_D_keys_def PdfDict_def field_key_def
      WIDGET_SUBTYPE_KEY_def PdfName_def slice_1_m1_def)

subsection \<open>Fetching a record\<close>

text \<open>
  Claim C8, as amended. \<open>get_record\<close> raises a \<open>LookupError\<close> whose message names the
  identifier field and the value of the filter when the list of the API has no record
  or more than one; it returns the record when the list has exactly one; and when the
  API answers with an error payload (an object with a non-empty \<^verbatim>\<open>error\<close> entry), it ends
  the process with \<^verbatim>\<open>exit(1)\<close>.
\<close>

theorem get_record_outcomes:
  "(\<exists>m. get_record (JsonList []) redcap_unique_identifier record_id = Inl (LookupError m)
        \<and> sublist redcap_unique_identifier m \<and> sublist record_id m)
   \<and> (length l > 1 \<longrightarrow>
        (\<exists>m. get_record (JsonList l) redcap_unique_identifier record_id = Inl (LookupError m)
           \<and> sublist redcap_unique_identifier m \<and> sublist record_id m))
   \<and> get_record (JsonList [r]) redcap_unique_identifier record_id = Inr r
   \<and> (map_of d ''error'' = Some e \<and> e \<noteq> [] \<longrightarrow>
        get_record (JsonDict d) redcap_unique_identifier record_id = Inl (SystemExit 1))"
proof (intro conjI impI)
  let ?i = redcap_unique_identifier
  let ?m0 = "''No records found where '' @ apostrophe @ ?i @ apostrophe @ '' = '' @ record_id"
  let ?m2 = "''Multiple records found where '' @ apostrophe @ ?i @ apostrophe @ '' = '' @ record_id
                   @ '' (expected only 1)''"
  have i0: "sublist ?i ?m0"
    unfolding sublist_def
    by (rule exI[of _ "''No records found where '' @ apostrophe"],
        rule exI[of _ "apostrophe @ '' = '' @ record_id"]) simp
  have r0: "sublist record_id ?m0"
    unfolding sublist_def
    by (rule exI[of _ "''No records found where '' @ apostrophe @ ?i @ apostrophe @ '' = ''"],
        rule exI[of _ "[]"]) simp
  have i2: "sublist ?i ?m2"
    unfolding sublist_def
    by (rule exI[of _ "''Multiple records found where '' @ apostrophe"],
        rule exI[of _ "apostrophe @ '' = '' @ record_id @ '' (expected only 1)''"]) simp
  have r2: "sublist record_id ?m2"
    unfolding sublist_def
    by (rule exI[of _ "''Multiple records found where '' @ apostrophe @ ?i @ apostrophe @ '' = ''"],
        rule exI[of _ "'' (expected only 1)''"]) simp
  have "get_record (JsonList []) ?i record_id = Inl (LookupError ?m0)"
    by (simp add: get_record_def)
  with i0 r0 show "\<exists>m. get_record (JsonList []) ?i record_id = Inl (LookupError m)
        \<and> sublist ?i m \<and> sublist record_id m"
    by blast
  {
    assume "length l > 1"
    then have "get_record (JsonList l) ?i record_id = Inl (LookupError ?m2)"
      by (auto simp: get_record_def)
    with i2 r2 show "\<exists>m. get_record (JsonList l) ?i record_id = Inl (LookupError m)
           \<and> sublist ?i m \<and> sublist record_id m"
      by blast
  }
  show "get_record (JsonList [r]) ?i record_id = Inr r"
    by (simp add: get_record_def)
  {
    assume "map_of d ''error'' = Some e \<and> e \<noteq> []"
    then show "get_record (JsonDict d) ?i record_id = Inl (SystemExit 1)"
      by (simp add: get_record_def)
  }
qed

theorem get_record_outcomes_witness:
  "(\<exists>m. get_record (JsonList [[(''record_id'', ''17'')], [(''record_id'', ''17'')]])
            ''record_id'' ''17'' = Inl (LookupError m)
        \<and> sublist ''record_id'' m \<and> sublist ''17'' m)
   \<and> (\<exists>m. get_record (JsonList []) ''record_id'' ''17'' = Inl (LookupError m)
        \<and> sublist ''record_id'' m \<and> sublist ''17'' m)
   \<and> get_record (JsonList [[(''record_id'', ''17'')]]) ''record_id'' ''17''
       = Inr [(''record_id'', ''17'')]
   \<and> get_record (JsonDict [(''error'', ''You do not have permissions to use the API'')])
       ''record_id'' ''17'' = Inl (SystemExit 1)"
  using get_record_outcomes[of "''record_id''" "''17''"
      "[[(''record_id'', ''17'')], [(''record_id'', ''17'')]]" "[(''record_id'', ''17'')]"
      "[(''error'', ''You do not have permissions to use the API'')]"
      "''You do not have permissions to use the API''"]
  by simp

text \<open>
  Claim C8 as stated has the record fetch raise an ordinary failure on an error
  payload, where the metadata fetch exits; the record fetch exits the process as well.
\<close>

theorem get_record_error_payload_exits:
  "get_record (JsonDict [(''error'', ''You do not have permissions to use the API'')])
       ''record_id'' ''17'' = Inl (SystemExit 1)
   \<and> is_SystemExit (SystemExit 1)"
  by (simp add: get_record_def)

subsection \<open>Identical input and output paths\<close>

text \<open>
  Claim C9, as amended. When the output path of the run and the template path are the
  same path (equal \<^verbatim>\<open>Path\<close> objects, whatever the argument strings), input validation
  fails, and its only access to the file system is the test that the template exists:
  with \<open>ValueError\<close> when the template argument does not end in \<^verbatim>\<open>.pdf\<close>, with
  \<open>FileNotFoundError\<close> when the template does not exist, and with \<open>FileExistsError\<close>
  otherwise.
\<close>

theorem get_cmd_line_input_same_path:
  assumes "Path (chosen_output_pdf default_output_pdf inp) = Path (input_pdf inp)"
  shows "get_cmd_line_input Path path_exists default_output_pdf inp =
     (if \<not> suffix ''.pdf'' (input_pdf inp) then ([], Inl ValueError)
      else if \<not> path_exists (Path (input_pdf inp))
        then ([PathExists (Path (input_pdf inp))], Inl FileNotFoundError)
      else ([PathExists (Path (input_pdf inp))], Inl FileExistsError))"
  using assms
  by (auto simp: get_cmd_line_input_def chosen_output_pdf_def Let_def split: option.splits)

theorem get_cmd_line_input_same_path_witness:
  "get_cmd_line_input (\<lambda>p. if prefix ''./'' p then drop 2 p else p) (\<lambda>p. p = ''form.pdf'')
     ''./output/now_form_17.pdf''
     \<lparr>record_identifier = ''17'', record_variable = ''record_id'',
      input_pdf = ''form.pdf'', output_pdf = Some ''./form.pdf''\<rparr>
   = ([PathExists ''form.pdf''], Inl FileExistsError)
   \<and> get_cmd_line_input (\<lambda>p. if prefix ''./'' p then drop 2 p else p) (\<lambda>p. p = ''form.pdf'')
     ''./output/now_form_17.pdf''
     \<lparr>record_identifier = ''17'', record_variable = ''record_id'',
      input_pdf = ''form.txt'', output_pdf = Some ''form.txt''\<rparr>
   = ([], Inl ValueError)
   \<and> get_cmd_line_input (\<lambda>p. if prefix ''./'' p then drop 2 p else p) (\<lambda>p. p = ''form.pdf'')
     ''./output/now_form_17.pdf''
     \<lparr>record_identifier = ''17'', record_variable = ''record_id'',
      input_pdf = ''./other.pdf'', output_pdf = Some ''other.pdf''\<rparr>
   = ([PathExists ''other.pdf''], Inl FileNotFoundError)"
proof -
  let ?Path = "\<lambda>p. if prefix ''./'' p then drop 2 p else p"
  let ?a = "\<lparr>record_identifier = ''17'', record_variable = ''record_id'',
      input_pdf = ''form.pdf'', output_pdf = Some ''./form.pdf''\<rparr>"
  let ?b = "\<lparr>record_identifier = ''17'', record_variable = ''record_id'',
      input_pdf = ''form.txt'', output_pdf = Some ''form.txt''\<rparr>"
  let ?c = "\<lparr>record_identifier = ''17'', record_variable = ''record_id'',
      input_pdf = ''./other.pdf'', output_pdf = Some ''other.pdf''\<rparr>"
  have s: "suffix ''.pdf'' ''form.pdf''" "\<not> suffix ''.pdf'' ''form.txt''"
    "suffix ''.pdf'' ''./other.pdf''"
    by code_simp+
  have n: "?Path ''./form.pdf'' = ''form.pdf''" "?Path ''form.pdf'' = ''form.pdf''"
    "?Path ''./other.pdf'' = ''other.pdf''" "?Path ''other.pdf'' = ''other.pdf''"
    by code_simp+
  have pa: "?Path (chosen_output_pdf ''./output/now_form_17.pdf'' ?a) = ?Path (input_pdf ?a)"
    and pb: "?Path (chosen_output_pdf ''./output/now_form_17.pdf'' ?b) = ?Path (input_pdf ?b)"
    and pc: "?Path (chosen_output_pdf ''./output/now_form_17.pdf'' ?c) = ?Path (input_pdf ?c)"
    by (simp_all add: chosen_output_pdf_def)
  have 1: "get_cmd_line_input ?Path (\<lambda>p. p = ''form.pdf'') ''./output/now_form_17.pdf'' ?a
      = ([PathExists ''form.pdf''], Inl FileExistsError)"
    using get_cmd_line_input_same_path[of ?Path "''./output/now_form_17.pdf''" ?a
        "\<lambda>p. p = ''form.pdf''", OF pa] s(1)
    by (simp only: n cmd_line.simps if_True if_False not_True_eq_False simp_thms)
  have 2: "get_cmd_line_input ?Path (\<lambda>p. p = ''form.pdf'') ''./output/now_form_17.pdf'' ?b
      = ([], Inl ValueError)"
    using get_cmd_line_input_same_path[of ?Path "''./output/now_form_17.pdf''" ?b
        "\<lambda>p. p = ''form.pdf''", OF pb] s(2)
    by (simp only: cmd_line.simps if_True if_False simp_thms)
  have ne: "''other.pdf'' \<noteq> ''form.pdf''" by simp
  have 3: "get_cmd_line_input ?Path (\<lambda>p. p = ''form.pdf'') ''./output/now_form_17.pdf'' ?c
      = ([PathExists ''other.pdf''], Inl FileNotFoundError)"
    using get_cmd_line_input_same_path[of ?Path "''./output/now_form_17.pdf''" ?c
        "\<lambda>p. p = ''form.pdf''", OF pc] s(3) ne
    by (simp only: n cmd_line.simps if_True if_False not_True_eq_False simp_thms)
  from 1 2 3 show ?thesis by (rule conjI[OF _ conjI])
qed

text \<open>
  Claim C9 as stated makes the failure a \<open>ValueError\<close>; for an existing template with the
  extension \<^verbatim>\<open>.pdf\<close> it is a \<open>FileExistsError\<close>, which is an \<open>OSError\<close>.
\<close>

theorem get_cmd_line_input_same_path_not_ValueError:
  "get_cmd_line_input (\<lambda>p. p) (\<lambda>p. p = ''form.pdf'') ''./output/now_form_17.pdf''
     \<lparr>record_identifier = ''17'', record_variable = ''record_id'',
      input_pdf = ''form.pdf'', output_pdf = Some ''form.pdf''\<rparr>
   = ([PathExists ''form.pdf''], Inl FileExistsError)
   \<and> \<not> is_ValueError FileExistsError"
proof -
  have "suffix ''.pdf'' ''form.pdf''" by code_simp
  then show ?thesis by (simp add: get_cmd_line_input_def)
qed

end
